theory Spec2Isabelle
  imports Main "HOL-Library.Sublist" "HOL-Library.AList"
begin

section \<open>JSON values and Python's \<open>json\<close> module\<close>

text \<open>
  The values \<open>request.get_json()\<close> hands to a handler and \<open>jsonify\<close> sends back:
  Python's \<open>None\<close>, \<open>bool\<close>, \<open>int\<close>, \<open>str\<close>, \<open>list\<close> and \<open>dict\<close> (a \<open>dict\<close> as the
  list of its items in insertion order; its keys are strings, as every key of a parsed
  JSON object is). Numbers with a fraction or an exponent (Python's \<open>float\<close>) are left
  out of the model. A \<open>string\<close> is read as a sequence of code points below 256.
\<close>

datatype json =
    JNull
  | JBool bool
  | JInt int
  | JStr string
  | JArr "json list"
  | JObj "(string \<times> json) list"


text \<open>
  \<open>json.dumps\<close> with its default arguments: \<open>'', ''\<close> between items, \<open>'': ''\<close> after a key,
  \<open>ensure_ascii\<close> escaping of every character outside the printable ASCII range.
\<close>

definition digit :: "nat \<Rightarrow> char" where
  "digit n = char_of (48 + n)"

fun show_nat :: "nat \<Rightarrow> string" where
  "show_nat n = (if n < 10 then [digit n] else show_nat (n div 10) @ [digit (n mod 10)])"

declare show_nat.simps [simp del]

definition show_int :: "int \<Rightarrow> string" where
  "show_int i = (if i < 0 then CHR ''-'' # show_nat (nat (- i)) else show_nat (nat i))"

definition hex_digit :: "nat \<Rightarrow> char" where
  "hex_digit n = (if n < 10 then char_of (48 + n) else char_of (87 + n))"

definition escape_char :: "char \<Rightarrow> string" where
  "escape_char c =
     (if c = CHR 0x22 then [CHR 0x5C, CHR 0x22]
      else if c = CHR 0x5C then [CHR 0x5C, CHR 0x5C]
      else if c = CHR 0x0A then [CHR 0x5C, CHR ''n'']
      else if c = CHR 0x0D then [CHR 0x5C, CHR ''r'']
      else if c = CHR 0x09 then [CHR 0x5C, CHR ''t'']
      else if c = CHR 0x0C then [CHR 0x5C, CHR ''f'']
      else if c = CHR 0x08 then [CHR 0x5C, CHR ''b'']
      else if 32 \<le> (of_char c :: nat) \<and> (of_char c :: nat) \<le> 126 then [c]
      else [CHR 0x5C, CHR ''u'', CHR ''0'', CHR ''0'',
            hex_digit ((of_char c :: nat) div 16), hex_digit ((of_char c :: nat) mod 16)])"

definition quote :: "string \<Rightarrow> string" where
  "quote s = CHR 0x22 # concat (map escape_char s) @ [CHR 0x22]"

fun intercalate :: "string \<Rightarrow> string list \<Rightarrow> string" where
  "intercalate sep [] = []"
| "intercalate sep [x] = x"
| "intercalate sep (x # y # ys) = x @ sep @ intercalate sep (y # ys)"

fun json_dumps :: "json \<Rightarrow> string" where
  "json_dumps JNull = ''null''"
| "json_dumps (JBool b) = (if b then ''true'' else ''false'')"
| "json_dumps (JInt i) = show_int i"
| "json_dumps (JStr s) = quote s"
| "json_dumps (JArr xs) = ''['' @ intercalate '', '' (map json_dumps xs) @ '']''"
| "json_dumps (JObj kvs) =
     ''{'' @ intercalate '', '' (map (\<lambda>(k, v). quote k @ '': '' @ json_dumps v) kvs) @ ''}''"



text \<open>
  \<open>json.loads\<close>: white space is skipped around every token, a number has no leading
  zero, a raw control character inside a string is refused, a repeated key keeps its
  first place and its last value, and nothing but white space may follow the value.
  The recursion runs on fuel; \<open>json_loads\<close> supplies twice the length of the text,
  more than any descent into it uses. No result (\<open>None\<close>) stands for
  \<open>JSONDecodeError\<close>.
\<close>

definition is_ws :: "char \<Rightarrow> bool" where
  "is_ws c = (c = CHR '' '' \<or> c = CHR 0x09 \<or> c = CHR 0x0A \<or> c = CHR 0x0D)"

definition skip_ws :: "string \<Rightarrow> string" where
  "skip_ws s = dropWhile is_ws s"

definition is_digit :: "char \<Rightarrow> bool" where
  "is_digit c = (48 \<le> (of_char c :: nat) \<and> (of_char c :: nat) \<le> 57)"

definition digit_val :: "char \<Rightarrow> nat" where
  "digit_val c = of_char c - 48"

definition nat_of_digits :: "string \<Rightarrow> nat" where
  "nat_of_digits ds = foldl (\<lambda>a c. 10 * a + digit_val c) 0 ds"

definition parse_nat :: "string \<Rightarrow> (nat \<times> string) option" where
  "parse_nat s =
     (let ds = takeWhile is_digit s; r = dropWhile is_digit s in
      if ds = [] \<or> (hd ds = CHR ''0'' \<and> 1 < length ds) then None
      else case r of
             [] \<Rightarrow> Some (nat_of_digits ds, r)
           | c # _ \<Rightarrow> if c = CHR ''.'' \<or> c = CHR ''e'' \<or> c = CHR ''E'' then None
                      else Some (nat_of_digits ds, r))"

definition parse_int :: "string \<Rightarrow> (json \<times> string) option" where
  "parse_int s =
     (case s of
        [] \<Rightarrow> None
      | c # t \<Rightarrow>
          if c = CHR ''-'' then
            (case parse_nat t of None \<Rightarrow> None | Some (n, r) \<Rightarrow> Some (JInt (- int n), r))
          else
            (case parse_nat s of None \<Rightarrow> None | Some (n, r) \<Rightarrow> Some (JInt (int n), r)))"

definition hex_val :: "char \<Rightarrow> nat option" where
  "hex_val c =
     (let n = (of_char c :: nat) in
      if 48 \<le> n \<and> n \<le> 57 then Some (n - 48)
      else if 97 \<le> n \<and> n \<le> 102 then Some (n - 87)
      else if 65 \<le> n \<and> n \<le> 70 then Some (n - 55)
      else None)"

definition unescape :: "char \<Rightarrow> char option" where
  "unescape e =
     (if e = CHR 0x22 then Some (CHR 0x22)
      else if e = CHR 0x5C then Some (CHR 0x5C)
      else if e = CHR ''/'' then Some (CHR ''/'')
      else if e = CHR ''b'' then Some (CHR 0x08)
      else if e = CHR ''f'' then Some (CHR 0x0C)
      else if e = CHR ''n'' then Some (CHR 0x0A)
      else if e = CHR ''r'' then Some (CHR 0x0D)
      else if e = CHR ''t'' then Some (CHR 0x09)
      else None)"

definition hex4 :: "char \<Rightarrow> char \<Rightarrow> char \<Rightarrow> char \<Rightarrow> nat option" where
  "hex4 a b c d =
     (case (hex_val a, hex_val b, hex_val c, hex_val d) of
        (Some x, Some y, Some z, Some w) \<Rightarrow> Some (((x * 16 + y) * 16 + z) * 16 + w)
      | _ \<Rightarrow> None)"

fun parse_chars :: "string \<Rightarrow> (string \<times> string) option" where
  "parse_chars [] = None"
| "parse_chars (c # s) =
     (if c = CHR 0x22 then Some ([], s)
      else if c = CHR 0x5C then
        (case s of
           [] \<Rightarrow> None
         | e # s' \<Rightarrow>
             if e = CHR ''u'' then
               (case s' of
                  h1 # h2 # h3 # h4 # s'' \<Rightarrow>
                    (case hex4 h1 h2 h3 h4 of
                       None \<Rightarrow> None
                     | Some n \<Rightarrow>
                         if n < 256 then
                           (case parse_chars s'' of
                              None \<Rightarrow> None
                            | Some (str, r) \<Rightarrow> Some (char_of n # str, r))
                         else None)
                | _ \<Rightarrow> None)
             else
               (case unescape e of
                  None \<Rightarrow> None
                | Some ch \<Rightarrow>
                    (case parse_chars s' of
                       None \<Rightarrow> None
                     | Some (str, r) \<Rightarrow> Some (ch # str, r))))
      else if (of_char c :: nat) < 32 then None
      else (case parse_chars s of
              None \<Rightarrow> None
            | Some (str, r) \<Rightarrow> Some (c # str, r)))"

definition py_dict :: "(string \<times> json) list \<Rightarrow> (string \<times> json) list" where
  "py_dict kvs = foldl (\<lambda>d (k, v). AList.update k v d) [] kvs"

fun parse_value :: "nat \<Rightarrow> string \<Rightarrow> (json \<times> string) option"
  and parse_elems :: "nat \<Rightarrow> string \<Rightarrow> (json list \<times> string) option"
  and parse_members :: "nat \<Rightarrow> string \<Rightarrow> ((string \<times> json) list \<times> string) option"
where
  "parse_value 0 s = None"
| "parse_value (Suc n) s =
     (case skip_ws s of
        [] \<Rightarrow> None
      | c # t \<Rightarrow>
          if c = CHR 0x22 then
            (case parse_chars t of None \<Rightarrow> None | Some (str, r) \<Rightarrow> Some (JStr str, r))
          else if c = CHR ''['' then
            (case skip_ws t of
               [] \<Rightarrow> None
             | c' # r \<Rightarrow>
                 if c' = CHR '']'' then Some (JArr [], r)
                 else (case parse_elems n t of
                         None \<Rightarrow> None
                       | Some (vs, r') \<Rightarrow> Some (JArr vs, r')))
          else if c = CHR ''{'' then
            (case skip_ws t of
               [] \<Rightarrow> None
             | c' # r \<Rightarrow>
                 if c' = CHR ''}'' then Some (JObj [], r)
                 else (case parse_members n t of
                         None \<Rightarrow> None
                       | Some (kvs, r') \<Rightarrow> Some (JObj (py_dict kvs), r')))
          else if prefix ''null'' (c # t) then Some (JNull, drop 4 (c # t))
          else if prefix ''true'' (c # t) then Some (JBool True, drop 4 (c # t))
          else if prefix ''false'' (c # t) then Some (JBool False, drop 5 (c # t))
          else parse_int (c # t))"
| "parse_elems 0 s = None"
| "parse_elems (Suc n) s =
     (case parse_value n s of
        None \<Rightarrow> None
      | Some (v, r) \<Rightarrow>
          (case skip_ws r of
             [] \<Rightarrow> None
           | c # r' \<Rightarrow>
               if c = CHR '']'' then Some ([v], r')
               else if c = CHR '','' then
                 (case parse_elems n r' of
                    None \<Rightarrow> None
                  | Some (vs, r'') \<Rightarrow> Some (v # vs, r''))
               else None))"
| "parse_members 0 s = None"
| "parse_members (Suc n) s =
     (case skip_ws s of
        [] \<Rightarrow> None
      | c # t \<Rightarrow>
          if c = CHR 0x22 then
            (case parse_chars t of
               None \<Rightarrow> None
             | Some (k, r) \<Rightarrow>
                 (case skip_ws r of
                    [] \<Rightarrow> None
                  | c2 # r2 \<Rightarrow>
                      if c2 = CHR '':'' then
                        (case parse_value n r2 of
                           None \<Rightarrow> None
                         | Some (v, r3) \<Rightarrow>
                             (case skip_ws r3 of
                                [] \<Rightarrow> None
                              | c3 # r4 \<Rightarrow>
                                  if c3 = CHR ''}'' then Some ([(k, v)], r4)
                                  else if c3 = CHR '','' then
                                    (case parse_members n r4 of
                                       None \<Rightarrow> None
                                     | Some (kvs, r5) \<Rightarrow> Some ((k, v) # kvs, r5))
                                  else None))
                      else None))
          else None)"

definition json_loads :: "string \<Rightarrow> json option" where
  "json_loads s =
     (case parse_value (2 * length s + 2) s of
        None \<Rightarrow> None
      | Some (v, r) \<Rightarrow> if skip_ws r = [] then Some v else None)"


text \<open>
  A Python value built from a parsed JSON body has distinct keys in every \<open>dict\<close>; the
  model keeps a \<open>dict\<close> as a list, so this is a predicate on the values.
\<close>

fun json_wf :: "json \<Rightarrow> bool" where
  "json_wf (JArr xs) = list_all json_wf xs"
| "json_wf (JObj kvs) = (distinct (map fst kvs) \<and> list_all json_wf (map snd kvs))"
| "json_wf JNull = True"
| "json_wf (JBool b) = True"
| "json_wf (JInt i) = True"
| "json_wf (JStr s) = True"

text \<open>
  For the proofs about \<open>json_loads\<close>: fuel that is enough to read a value back, the
  characters that may follow a value in a text, and those a value's own text starts with.
\<close>

fun jfuel :: "json \<Rightarrow> nat" where
  "jfuel (JArr xs) = Suc (sum_list (map (\<lambda>x. Suc (jfuel x)) xs))"
| "jfuel (JObj kvs) = Suc (sum_list (map (\<lambda>x. Suc (jfuel x)) (map snd kvs)))"
| "jfuel JNull = 1"
| "jfuel (JBool b) = 1"
| "jfuel (JInt i) = 1"
| "jfuel (JStr s) = 1"

definition value_end :: "string \<Rightarrow> bool" where
  "value_end rest =
     (case rest of [] \<Rightarrow> True | c # _ \<Rightarrow> c = CHR '','' \<or> c = CHR '']'' \<or> c = CHR ''}'')"

definition starts :: "char \<Rightarrow> bool" where
  "starts c = (c = CHR 0x22 \<or> c = CHR ''['' \<or> c = CHR ''{'' \<or> c = CHR ''n'' \<or> c = CHR ''t''
     \<or> c = CHR ''f'' \<or> c = CHR ''-'' \<or> is_digit c)"

section \<open>Python's operations on the request body\<close>

text \<open>
  The exceptions a handler can let escape: none of them is caught in \<open>api.py\<close> outside
  the \<open>try\<close> blocks around \<open>insert\<close> and \<open>delete\<close>.
\<close>

datatype exception =
    KeyError string
  | TypeError
  | JSONDecodeError
  | MultipleResultsFound

text \<open>\<open>body[k]\<close> for a string \<open>k\<close>: only a \<open>dict\<close> can be indexed by a string.\<close>

fun py_getitem :: "json \<Rightarrow> string \<Rightarrow> exception + json" where
  "py_getitem (JObj kvs) k =
     (case map_of kvs k of None \<Rightarrow> Inl (KeyError k) | Some v \<Rightarrow> Inr v)"
| "py_getitem JNull k = Inl TypeError"
| "py_getitem (JBool b) k = Inl TypeError"
| "py_getitem (JInt i) k = Inl TypeError"
| "py_getitem (JStr s) k = Inl TypeError"
| "py_getitem (JArr xs) k = Inl TypeError"

text \<open>
  \<open>k in body\<close>: a key of a \<open>dict\<close>, an element of a \<open>list\<close>, a substring of a \<open>str\<close>;
  \<open>None\<close>, a \<open>bool\<close> and an \<open>int\<close> are not iterable.
\<close>

fun py_contains :: "string \<Rightarrow> json \<Rightarrow> exception + bool" where
  "py_contains k (JObj kvs) = Inr (k \<in> set (map fst kvs))"
| "py_contains k (JArr xs) = Inr (JStr k \<in> set xs)"
| "py_contains k (JStr s) = Inr (sublist k s)"
| "py_contains k JNull = Inl TypeError"
| "py_contains k (JBool b) = Inl TypeError"
| "py_contains k (JInt i) = Inl TypeError"

text \<open>\<open>for r in v\<close>: the items of a \<open>list\<close>, the keys of a \<open>dict\<close>, the characters of a \<open>str\<close>.\<close>

fun py_iter :: "json \<Rightarrow> exception + json list" where
  "py_iter (JArr xs) = Inr xs"
| "py_iter (JObj kvs) = Inr (map (\<lambda>kv. JStr (fst kv)) kvs)"
| "py_iter (JStr s) = Inr (map (\<lambda>c. JStr [c]) s)"
| "py_iter JNull = Inl TypeError"
| "py_iter (JBool b) = Inl TypeError"
| "py_iter (JInt i) = Inl TypeError"

text \<open>A list comprehension: the first element that raises ends it.\<close>

fun try_map :: "('a \<Rightarrow> 'e + 'b) \<Rightarrow> 'a list \<Rightarrow> 'e + 'b list" where
  "try_map f [] = Inr []"
| "try_map f (x # xs) =
     (case f x of
        Inl e \<Rightarrow> Inl e
      | Inr y \<Rightarrow> (case try_map f xs of Inl e \<Rightarrow> Inl e | Inr ys \<Rightarrow> Inr (y # ys)))"

section \<open>The drink table\<close>

text \<open>
  Modelled from the spec: the class \<open>Drink\<close> of \<open>database/models.py\<close>, which is not among
  the sources. A drink has a server-assigned id (absent until the drink is inserted), a
  title and a recipe; \<open>api.py\<close> builds one with \<open>Drink(title=title,
  recipe=json.dumps(recipe))\<close> and assigns \<open>drink.title\<close> and \<open>drink.recipe\<close>, so the recipe
  column holds text and the title whatever value the body carried.
\<close>

record Drink =
  drink_id :: "int option"
  title :: json
  recipe :: string

text \<open>
  Modelled from the spec: the persisted collection of drink records with the counter the
  next id is taken from.
\<close>

record db =
  rows :: "Drink list"
  next_id :: int

datatype storage_error = PersistenceError

text \<open>Modelled from the spec: \<open>list_all\<close>, the query \<open>Drink.query.all()\<close>.\<close>

definition query_all :: "db \<Rightarrow> Drink list" where
  "query_all d = rows d"

text \<open>
  Modelled from the spec: \<open>get(id)\<close>, the query
  \<open>Drink.query.filter_by(id=id).one_or_none()\<close>: the one row of that id, \<open>None\<close> when
  there is none, and \<open>MultipleResultsFound\<close> when there are several.
\<close>

definition filter_by_id :: "db \<Rightarrow> int \<Rightarrow> Drink list" where
  "filter_by_id d i = filter (\<lambda>r. drink_id r = Some i) (rows d)"

fun one_or_none :: "Drink list \<Rightarrow> exception + Drink option" where
  "one_or_none [] = Inr None"
| "one_or_none [r] = Inr (Some r)"
| "one_or_none (r # r' # rs) = Inl MultipleResultsFound"

text \<open>
  Modelled from the spec: \<open>Drink.insert\<close>, the repository's \<open>insert\<close>, which \<open>api.py\<close> also
  calls to persist a modified record (the single upsert-style persist operation of the
  spec's design notes). A drink without an id gets the next id and a new row; a drink
  that has one replaces its row. A storage-layer failure is an input of the model
  (\<open>fault\<close>): then nothing is written.
\<close>

definition Drink_insert :: "bool \<Rightarrow> Drink \<Rightarrow> db \<Rightarrow> storage_error + Drink \<times> db" where
  "Drink_insert fault drink d =
     (if fault then Inl PersistenceError
      else case drink_id drink of
             None \<Rightarrow>
               (let drink' = drink\<lparr>drink_id := Some (next_id d)\<rparr>
                in Inr (drink', d\<lparr>rows := rows d @ [drink'], next_id := next_id d + 1\<rparr>))
           | Some i \<Rightarrow>
               Inr (drink,
                    d\<lparr>rows := map (\<lambda>r. if drink_id r = Some i then drink else r) (rows d)\<rparr>))"

text \<open>
  Modelled from the spec: \<open>Drink.delete\<close>, the repository's hard delete of the record.
\<close>

definition Drink_delete :: "bool \<Rightarrow> Drink \<Rightarrow> db \<Rightarrow> storage_error + db" where
  "Drink_delete fault drink d =
     (if fault then Inl PersistenceError
      else Inr (d\<lparr>rows := filter (\<lambda>r. drink_id r \<noteq> drink_id drink) (rows d)\<rparr>))"

definition id_json :: "int option \<Rightarrow> json" where
  "id_json i = (case i of None \<Rightarrow> JNull | Some n \<Rightarrow> JInt n)"

text \<open>
  Modelled from the spec: the projection \<open>long\<close> of \<open>Drink\<close>: id, title and the recipe with
  full entry detail, read back from the stored text.
\<close>

definition long :: "Drink \<Rightarrow> exception + json" where
  "long drink =
     (case json_loads (recipe drink) of
        None \<Rightarrow> Inl JSONDecodeError
      | Some r \<Rightarrow>
          Inr (JObj [(''id'', id_json (drink_id drink)), (''title'', title drink),
                     (''recipe'', r)]))"

text \<open>
  Modelled from the spec: the projection \<open>short\<close> of \<open>Drink\<close>: id, title and the recipe
  with only the \<open>color\<close> field of each entry.
\<close>

definition short_entry :: "json \<Rightarrow> exception + json" where
  "short_entry r =
     (case py_getitem r ''color'' of Inl e \<Rightarrow> Inl e | Inr c \<Rightarrow> Inr (JObj [(''color'', c)]))"

definition short :: "Drink \<Rightarrow> exception + json" where
  "short drink =
     (case json_loads (recipe drink) of
        None \<Rightarrow> Inl JSONDecodeError
      | Some r \<Rightarrow>
          (case py_iter r of
             Inl e \<Rightarrow> Inl e
           | Inr entries \<Rightarrow>
               (case try_map short_entry entries of
                  Inl e \<Rightarrow> Inl e
                | Inr short_recipe \<Rightarrow>
                    Inr (JObj [(''id'', id_json (drink_id drink)), (''title'', title drink),
                               (''recipe'', JArr short_recipe)]))))"

text \<open>
  The projection the spec describes, in its own words: a \<open>long\<close> object with the quantity
  field \<open>parts\<close> removed from every entry of its recipe, everything else kept. It is
  compared with \<open>short\<close> below.
\<close>

fun hide_parts_entry :: "json \<Rightarrow> json" where
  "hide_parts_entry (JObj kvs) = JObj (filter (\<lambda>kv. fst kv \<noteq> ''parts'') kvs)"
| "hide_parts_entry JNull = JNull"
| "hide_parts_entry (JBool b) = JBool b"
| "hide_parts_entry (JInt i) = JInt i"
| "hide_parts_entry (JStr s) = JStr s"
| "hide_parts_entry (JArr xs) = JArr xs"

fun hide_parts_recipe :: "json \<Rightarrow> json" where
  "hide_parts_recipe (JArr entries) = JArr (map hide_parts_entry entries)"
| "hide_parts_recipe JNull = JNull"
| "hide_parts_recipe (JBool b) = JBool b"
| "hide_parts_recipe (JInt i) = JInt i"
| "hide_parts_recipe (JStr s) = JStr s"
| "hide_parts_recipe (JObj kvs) = JObj kvs"

fun hide_parts :: "json \<Rightarrow> json" where
  "hide_parts (JObj kvs) =
     JObj (map (\<lambda>kv. if fst kv = ''recipe'' then (fst kv, hide_parts_recipe (snd kv)) else kv)
             kvs)"
| "hide_parts JNull = JNull"
| "hide_parts (JBool b) = JBool b"
| "hide_parts (JInt i) = JInt i"
| "hide_parts (JStr s) = JStr s"
| "hide_parts (JArr xs) = JArr xs"

text \<open>
  An ingredient entry of the spec's data model: an object with a \<open>color\<close> and no field
  other than \<open>color\<close> and \<open>parts\<close>; and a drink whose stored recipe is a list of such
  entries.
\<close>

fun ingredient :: "json \<Rightarrow> bool" where
  "ingredient (JObj kvs) =
     (distinct (map fst kvs) \<and> ''color'' \<in> set (map fst kvs)
      \<and> set (map fst kvs) \<subseteq> {''color'', ''parts''})"
| "ingredient JNull = False"
| "ingredient (JBool b) = False"
| "ingredient (JInt i) = False"
| "ingredient (JStr s) = False"
| "ingredient (JArr xs) = False"

definition data_model_recipe :: "Drink \<Rightarrow> bool" where
  "data_model_recipe drink =
     (case json_loads (recipe drink) of
        Some (JArr entries) \<Rightarrow> list_all ingredient entries
      | _ \<Rightarrow> False)"

text \<open>The stored recipe is valid structured data: \<open>json.loads\<close> reads it.\<close>

definition valid_recipe :: "Drink \<Rightarrow> bool" where
  "valid_recipe drink = (json_loads (recipe drink) \<noteq> None)"

section \<open>Authorization\<close>

text \<open>
  Modelled from the spec: \<open>AuthError\<close> of \<open>auth/auth.py\<close>, which is not among the sources;
  \<open>api.py\<close> reads its fields \<open>error\<close> and \<open>status_code\<close>. The spec names the kinds of
  failure and gives each a 401-equivalent status; a kind's message is its name.
\<close>

datatype auth_kind =
    MissingHeader
  | MalformedHeader
  | InvalidHeader
  | TokenExpired
  | InvalidClaims
  | PermissionMissing

record AuthError =
  error :: json
  status_code :: int

fun kind_message :: "auth_kind \<Rightarrow> string" where
  "kind_message MissingHeader = ''MissingHeader''"
| "kind_message MalformedHeader = ''MalformedHeader''"
| "kind_message InvalidHeader = ''InvalidHeader''"
| "kind_message TokenExpired = ''TokenExpired''"
| "kind_message InvalidClaims = ''InvalidClaims''"
| "kind_message PermissionMissing = ''PermissionMissing''"

definition auth_error :: "auth_kind \<Rightarrow> AuthError" where
  "auth_error k = \<lparr>error = JStr (kind_message k), status_code = 401\<rparr>"

text \<open>
  Modelled from the spec: the decoded claims of a token; the \<open>permissions\<close> entry may be
  absent.
\<close>

record claims =
  permissions :: "string list option"

text \<open>
  Modelled from the spec: what decoding and verifying a token against the configured
  key set finds. Signatures and keys are outside the model: the verdict on each token
  text is an input.
\<close>

datatype token_check =
    Undecodable
  | KeyIdAbsent
  | NoMatchingKey
  | ExpiryPassed
  | AudienceIssuerMismatch
  | VerificationFailed
  | Verified claims

fun split_space :: "string \<Rightarrow> string list" where
  "split_space [] = [[]]"
| "split_space (c # s) =
     (if c = CHR '' '' then [] # split_space s
      else case split_space s of [] \<Rightarrow> [[c]] | w # ws \<Rightarrow> (c # w) # ws)"

text \<open>Modelled from the spec: the Token Verifier (section 4.1).\<close>

definition token_verifier :: "(string \<Rightarrow> token_check) \<Rightarrow> string option \<Rightarrow> AuthError + claims" where
  "token_verifier check header =
     (case header of
        None \<Rightarrow> Inl (auth_error MissingHeader)
      | Some h \<Rightarrow>
          (case split_space h of
             [scheme, token] \<Rightarrow>
               if scheme \<noteq> ''Bearer'' then Inl (auth_error MalformedHeader)
               else (case check token of
                       Undecodable \<Rightarrow> Inl (auth_error InvalidHeader)
                     | KeyIdAbsent \<Rightarrow> Inl (auth_error InvalidHeader)
                     | NoMatchingKey \<Rightarrow> Inl (auth_error InvalidHeader)
                     | ExpiryPassed \<Rightarrow> Inl (auth_error TokenExpired)
                     | AudienceIssuerMismatch \<Rightarrow> Inl (auth_error InvalidClaims)
                     | VerificationFailed \<Rightarrow> Inl (auth_error InvalidHeader)
                     | Verified payload \<Rightarrow> Inr payload)
           | _ \<Rightarrow> Inl (auth_error MalformedHeader)))"

definition permission_set :: "claims \<Rightarrow> string set" where
  "permission_set payload = (case permissions payload of None \<Rightarrow> {} | Some ps \<Rightarrow> set ps)"

section \<open>Requests, failures and the guard\<close>

text \<open>
  What \<open>request.get_json()\<close> does: it returns the parsed body (\<open>JNull\<close> for Python's
  \<open>None\<close>: the JSON body \<open>null\<close>, and before Flask 2.1 also an absent or non-JSON body),
  or it raises an HTTP error of the framework, which ends the handler like \<open>abort\<close> with
  that code: 400 for a body that is not JSON text, 415 for a content type that is not
  JSON (from Flask 2.1 on).
\<close>

datatype body_read =
    Returns json
  | Raises nat

text \<open>
  What a handler reads of Flask's \<open>request\<close>: the \<open>Authorization\<close> header and the body
  through \<open>request.get_json()\<close>.
\<close>

record request =
  authorization :: "string option"
  get_json :: body_read

text \<open>
  How a handler ends without a response of its own: \<open>abort(code)\<close>, a raised
  \<open>AuthError\<close>, or an exception nothing catches.
\<close>

datatype failure =
    Abort nat
  | Auth AuthError
  | Uncaught exception

type_synonym 'a outcome = "failure + 'a"

text \<open>
  Modelled from the spec: the Permission Guard (section 4.2), \<open>requires_auth\<close> of
  \<open>auth/auth.py\<close>: the verifier first, then the membership of the permission, and only
  then the wrapped handler, which receives the claims.
\<close>

definition requires_auth ::
  "string \<Rightarrow> (string \<Rightarrow> token_check) \<Rightarrow> (claims \<Rightarrow> db \<Rightarrow> json outcome \<times> db) \<Rightarrow>
   request \<Rightarrow> db \<Rightarrow> json outcome \<times> db" where
  "requires_auth permission check f req d =
     (case token_verifier check (authorization req) of
        Inl e \<Rightarrow> (Inl (Auth e), d)
      | Inr payload \<Rightarrow>
          if permission \<in> permission_set payload then f payload d
          else (Inl (Auth (auth_error PermissionMissing)), d))"

section \<open>The route handlers of \<open>api.py\<close>\<close>

definition success_drinks :: "json \<Rightarrow> json" where
  "success_drinks v = JObj [(''success'', JBool True), (''drinks'', v)]"

text \<open>\<open>GET /drinks\<close> (lines 30 to 46): public, reads only.\<close>

definition drinks :: "db \<Rightarrow> json outcome" where
  "drinks d =
     (let ds = query_all d in
      if length ds = 0 then Inl (Abort 404)
      else case try_map short ds of
             Inl e \<Rightarrow> Inl (Uncaught e)
           | Inr drinks_short \<Rightarrow> Inr (success_drinks (JArr drinks_short)))"

text \<open>\<open>GET /drinks-detail\<close> (lines 57 to 74), the function under the guard.\<close>

definition drinks_detail :: "claims \<Rightarrow> db \<Rightarrow> json outcome" where
  "drinks_detail payload d =
     (let ds = query_all d in
      if length ds = 0 then Inl (Abort 404)
      else case try_map long ds of
             Inl e \<Rightarrow> Inl (Uncaught e)
           | Inr drinks_long \<Rightarrow> Inr (success_drinks (JArr drinks_long)))"

text \<open>
  \<open>POST /drinks\<close> (lines 85 to 105). \<open>request.get_json()\<close> and the two subscripts of the
  body stand before the \<open>try\<close>; only \<open>drink.insert()\<close> is inside it.
\<close>

definition add_drink :: "bool \<Rightarrow> request \<Rightarrow> claims \<Rightarrow> db \<Rightarrow> json outcome \<times> db" where
  "add_drink fault req payload d =
     (case get_json req of
        Raises code \<Rightarrow> (Inl (Abort code), d)
      | Returns body \<Rightarrow>
          (case py_getitem body ''title'' of
             Inl e \<Rightarrow> (Inl (Uncaught e), d)
           | Inr t \<Rightarrow>
               (case py_getitem body ''recipe'' of
                  Inl e \<Rightarrow> (Inl (Uncaught e), d)
                | Inr r \<Rightarrow>
                    (let drink = \<lparr>drink_id = None, title = t, recipe = json_dumps r\<rparr> in
                     case Drink_insert fault drink d of
                       Inl x \<Rightarrow> (Inl (Abort 422), d)
                     | Inr (drink', d') \<Rightarrow>
                         (case long drink' of
                            Inl e \<Rightarrow> (Inl (Uncaught e), d')
                          | Inr l \<Rightarrow> (Inr (success_drinks l), d'))))))"

text \<open>
  \<open>PATCH /drinks/<id>\<close> (lines 118 to 153): the lookup, the two optional assignments,
  \<open>drink.insert()\<close> inside the \<open>try\<close>, and the one-element list of \<open>drink.long()\<close>.
\<close>

definition assign_title :: "json \<Rightarrow> Drink \<Rightarrow> exception + Drink" where
  "assign_title body drink =
     (case py_contains ''title'' body of
        Inl e \<Rightarrow> Inl e
      | Inr present \<Rightarrow>
          if present then
            (case py_getitem body ''title'' of
               Inl e \<Rightarrow> Inl e
             | Inr t \<Rightarrow> Inr (drink\<lparr>title := t\<rparr>))
          else Inr drink)"

definition assign_recipe :: "json \<Rightarrow> Drink \<Rightarrow> exception + Drink" where
  "assign_recipe body drink =
     (case py_contains ''recipe'' body of
        Inl e \<Rightarrow> Inl e
      | Inr present \<Rightarrow>
          if present then
            (case py_getitem body ''recipe'' of
               Inl e \<Rightarrow> Inl e
             | Inr r \<Rightarrow> Inr (drink\<lparr>recipe := json_dumps r\<rparr>))
          else Inr drink)"

definition edit_drink_by_id ::
  "bool \<Rightarrow> request \<Rightarrow> claims \<Rightarrow> int \<Rightarrow> db \<Rightarrow> json outcome \<times> db" where
  "edit_drink_by_id fault req payload i d =
     (case one_or_none (filter_by_id d i) of
        Inl e \<Rightarrow> (Inl (Uncaught e), d)
      | Inr None \<Rightarrow> (Inl (Abort 404), d)
      | Inr (Some drink) \<Rightarrow>
          (case get_json req of
             Raises code \<Rightarrow> (Inl (Abort code), d)
           | Returns body \<Rightarrow>
               (case assign_title body drink of
                  Inl e \<Rightarrow> (Inl (Uncaught e), d)
                | Inr drink1 \<Rightarrow>
                    (case assign_recipe body drink1 of
                       Inl e \<Rightarrow> (Inl (Uncaught e), d)
                     | Inr drink2 \<Rightarrow>
                         (case Drink_insert fault drink2 d of
                            Inl x \<Rightarrow> (Inl (Abort 400), d)
                          | Inr (drink3, d') \<Rightarrow>
                              (case long drink3 of
                                 Inl e \<Rightarrow> (Inl (Uncaught e), d')
                               | Inr l \<Rightarrow> (Inr (success_drinks (JArr [l])), d')))))))"

text \<open>\<open>DELETE /drinks/<id>\<close> (lines 164 to 185).\<close>

definition delete_drink :: "bool \<Rightarrow> claims \<Rightarrow> int \<Rightarrow> db \<Rightarrow> json outcome \<times> db" where
  "delete_drink fault payload i d =
     (case one_or_none (filter_by_id d i) of
        Inl e \<Rightarrow> (Inl (Uncaught e), d)
      | Inr None \<Rightarrow> (Inl (Abort 404), d)
      | Inr (Some drink) \<Rightarrow>
          (case Drink_delete fault drink d of
             Inl x \<Rightarrow> (Inl (Abort 500), d)
           | Inr d' \<Rightarrow> (Inr (JObj [(''success'', JBool True), (''delete'', JInt i)]), d')))"

section \<open>The error handlers of \<open>api.py\<close>\<close>

text \<open>A response: the JSON body and the HTTP status.\<close>

datatype response =
    Response json nat
  | DefaultErrorPage nat

definition envelope :: "json \<Rightarrow> json \<Rightarrow> json" where
  "envelope code msg = JObj [(''success'', JBool False), (''error'', code), (''message'', msg)]"

definition not_found :: response where
  "not_found = Response (envelope (JInt 404) (JStr ''resource not found'')) 404"

definition unprocessable :: response where
  "unprocessable = Response (envelope (JInt 422) (JStr ''unprocessable'')) 422"

definition bad_request :: response where
  "bad_request = Response (envelope (JInt 400) (JStr ''bad request'')) 400"

definition server_error :: response where
  "server_error = Response (envelope (JInt 500) (JStr ''server error'')) 500"

definition handle_auth_errors :: "AuthError \<Rightarrow> response" where
  "handle_auth_errors e = Response (envelope (JInt (status_code e)) (error e)) 401"

text \<open>
  The registrations \<open>@app.errorhandler\<close> (lines 214 to 255): an \<open>abort(code)\<close> goes to the
  handler registered for its code, an \<open>AuthError\<close> to \<open>handle_auth_errors\<close>. An exception
  that nothing catches is Flask's internal server error, which goes to the handler
  registered for 500. A code without a handler gets the framework's own page.
\<close>

definition errorhandler :: "failure \<Rightarrow> response" where
  "errorhandler f =
     (case f of
        Abort code \<Rightarrow>
          if code = 404 then not_found
          else if code = 422 then unprocessable
          else if code = 400 then bad_request
          else if code = 500 then server_error
          else DefaultErrorPage code
      | Auth e \<Rightarrow> handle_auth_errors e
      | Uncaught x \<Rightarrow> server_error)"

section \<open>The application\<close>

datatype route =
    GET_drinks
  | GET_drinks_detail
  | POST_drinks
  | PATCH_drinks int
  | DELETE_drinks int

text \<open>
  The route table (the decorators \<open>@app.route\<close> and \<open>@requires_auth\<close>). \<open>check\<close> is the
  verdict of the key set on a token, \<open>fault\<close> whether the storage layer fails on this
  request's write.
\<close>

definition dispatch ::
  "(string \<Rightarrow> token_check) \<Rightarrow> bool \<Rightarrow> route \<Rightarrow> request \<Rightarrow> db \<Rightarrow> json outcome \<times> db" where
  "dispatch check fault rt req d =
     (case rt of
        GET_drinks \<Rightarrow> (drinks d, d)
      | GET_drinks_detail \<Rightarrow>
          requires_auth ''get:drinks-detail'' check
            (\<lambda>payload d'. (drinks_detail payload d', d')) req d
      | POST_drinks \<Rightarrow>
          requires_auth ''post:drinks'' check (add_drink fault req) req d
      | PATCH_drinks i \<Rightarrow>
          requires_auth ''patch:drinks'' check
            (\<lambda>payload. edit_drink_by_id fault req payload i) req d
      | DELETE_drinks i \<Rightarrow>
          requires_auth ''delete:drinks'' check
            (\<lambda>payload. delete_drink fault payload i) req d)"

definition serve ::
  "(string \<Rightarrow> token_check) \<Rightarrow> bool \<Rightarrow> route \<Rightarrow> request \<Rightarrow> db \<Rightarrow> response \<times> db" where
  "serve check fault rt req d =
     (case dispatch check fault rt req d of
        (Inl f, d') \<Rightarrow> (errorhandler f, d')
      | (Inr body, d') \<Rightarrow> (Response body 200, d'))"

section \<open>Example requests and tables\<close>

text \<open>
  The values the examples below run on: two recipes of the spec's data model and one
  with a further field, the claims of a token that may only read and of one that may
  write, a request with a bearer token, a drink of id 1, the empty table and a table of
  one drink.
\<close>

definition water :: json where
  "water = JArr [JObj [(''color'', JStr ''blue''), (''parts'', JInt 1)]]"

definition matcha :: json where
  "matcha = JArr [JObj [(''color'', JStr ''green''), (''parts'', JInt 2)]]"

definition named_water :: json where
  "named_water =
     JArr [JObj [(''name'', JStr ''water''), (''color'', JStr ''blue''), (''parts'', JInt 1)]]"

definition barista :: claims where
  "barista = \<lparr>permissions = Some [''get:drinks-detail'']\<rparr>"

definition manager :: claims where
  "manager = \<lparr>permissions = Some [''get:drinks-detail'', ''post:drinks'', ''patch:drinks'',
                                   ''delete:drinks'']\<rparr>"

definition as_barista :: "string \<Rightarrow> token_check" where
  "as_barista token = Verified barista"

definition as_manager :: "string \<Rightarrow> token_check" where
  "as_manager token = Verified manager"

definition sends :: "json \<Rightarrow> request" where
  "sends body = \<lparr>authorization = Some ''Bearer abc'', get_json = Returns body\<rparr>"

definition drink_1 :: "string \<Rightarrow> json \<Rightarrow> Drink" where
  "drink_1 name r = \<lparr>drink_id = Some 1, title = JStr name, recipe = json_dumps r\<rparr>"

definition no_drinks :: db where
  "no_drinks = \<lparr>rows = [], next_id = 1\<rparr>"

definition table_of :: "Drink \<Rightarrow> db" where
  "table_of drink = \<lparr>rows = [drink], next_id = 2\<rparr>"

section \<open>Helper lemmas\<close>

subsection \<open>Reading back what \<open>json.dumps\<close> wrote\<close>

lemma is_digit_digit: "n < 10 \<Longrightarrow> is_digit (digit n)"
  by (simp add: is_digit_def digit_def)

lemma digit_val_digit: "n < 10 \<Longrightarrow> digit_val (digit n) = n"
  by (simp add: digit_val_def digit_def)

lemma digit_eq_zero: "n < 10 \<Longrightarrow> digit n = CHR ''0'' \<longleftrightarrow> n = 0"
proof -
  assume "n < 10"
  have "digit n = CHR ''0'' \<longleftrightarrow> (of_char (digit n) :: nat) = of_char (CHR ''0'')"
    by (metis of_char_eq_iff)
  with \<open>n < 10\<close> show ?thesis by (simp add: digit_def)
qed

lemma show_nat_digits: "list_all is_digit (show_nat n)"
proof (induction n rule: show_nat.induct)
  case (1 n)
  show ?case
  proof (cases "n < 10")
    case True
    then show ?thesis by (subst show_nat.simps) (simp add: is_digit_digit)
  next
    case False
    with 1 show ?thesis by (subst show_nat.simps) (simp add: is_digit_digit)
  qed
qed

lemma show_nat_nonempty: "show_nat n \<noteq> []"
  by (subst show_nat.simps) simp

lemma nat_of_digits_snoc: "nat_of_digits (ds @ [c]) = 10 * nat_of_digits ds + digit_val c"
  by (simp add: nat_of_digits_def)

lemma nat_of_show_nat: "nat_of_digits (show_nat n) = n"
proof (induction n rule: show_nat.induct)
  case (1 n)
  show ?case
  proof (cases "n < 10")
    case True
    then show ?thesis
      by (subst show_nat.simps) (simp add: nat_of_digits_def digit_val_digit)
  next
    case False
    with 1 show ?thesis
      by (subst show_nat.simps) (simp add: nat_of_digits_snoc digit_val_digit)
  qed
qed

lemma show_nat_leading:
  "hd (show_nat n) = CHR ''0'' \<Longrightarrow> length (show_nat n) = 1"
proof (induction n rule: show_nat.induct)
  case (1 n)
  show ?case
  proof (cases "n < 10")
    case True
    then show ?thesis by (subst show_nat.simps) simp
  next
    case False
    then have eq: "show_nat n = show_nat (n div 10) @ [digit (n mod 10)]"
      by (subst show_nat.simps) simp
    with "1.prems" have h: "hd (show_nat (n div 10)) = CHR ''0''"
      by (simp add: show_nat_nonempty)
    with 1 False have len: "length (show_nat (n div 10)) = 1" by simp
    then obtain c where c: "show_nat (n div 10) = [c]"
      by (cases "show_nat (n div 10)") auto
    with h have "c = CHR ''0''" by simp
    with c have "nat_of_digits (show_nat (n div 10)) = 0"
      by (simp add: nat_of_digits_def digit_val_def)
    then have "n div 10 = 0" by (simp add: nat_of_show_nat)
    with False show ?thesis by simp
  qed
qed

lemma value_end_simps [simp]:
  "value_end []" "value_end (CHR '','' # s)" "value_end (CHR '']'' # s)" "value_end (CHR ''}'' # s)"
  by (simp_all add: value_end_def)

lemma takeWhile_digits:
  assumes "list_all is_digit ds" and "value_end rest"
  shows "takeWhile is_digit (ds @ rest) = ds" and "dropWhile is_digit (ds @ rest) = rest"
proof -
  from assms(2) have r: "rest = [] \<or> \<not> is_digit (hd rest)"
    by (auto simp: value_end_def is_digit_def split: list.splits)
  from assms(1) have all: "\<forall>x\<in>set ds. is_digit x" by (simp add: list_all_iff)
  from r all show "takeWhile is_digit (ds @ rest) = ds"
    by (cases rest) (auto simp: takeWhile_append2 takeWhile_tail)
  from r all show "dropWhile is_digit (ds @ rest) = rest"
    by (cases rest) (auto simp: dropWhile_append2)
qed

lemma parse_nat_show_nat:
  assumes "value_end rest"
  shows "parse_nat (show_nat n @ rest) = Some (n, rest)"
proof -
  have nz: "\<not> (hd (show_nat n) = CHR ''0'' \<and> 1 < length (show_nat n))"
    using show_nat_leading [of n] by auto
  from assms have "case rest of [] \<Rightarrow> True
      | c # _ \<Rightarrow> \<not> (c = CHR ''.'' \<or> c = CHR ''e'' \<or> c = CHR ''E'')"
    by (auto simp: value_end_def split: list.splits)
  then show ?thesis
    using nz takeWhile_digits [OF show_nat_digits assms, of n]
    by (auto simp: parse_nat_def Let_def show_nat_nonempty nat_of_show_nat split: list.splits)
qed

lemma show_nat_hd_digit: "is_digit (hd (show_nat n))"
  using show_nat_digits [of n] show_nat_nonempty [of n]
  by (cases "show_nat n") auto

lemma parse_int_show_int:
  assumes "value_end rest"
  shows "parse_int (show_int i @ rest) = Some (JInt i, rest)"
proof (cases "i < 0")
  case True
  then show ?thesis
    by (simp add: parse_int_def show_int_def parse_nat_show_nat [OF assms])
next
  case False
  obtain c cs where cs: "show_nat (nat i) = c # cs"
    using show_nat_nonempty [of "nat i"] by (cases "show_nat (nat i)") auto
  with show_nat_hd_digit [of "nat i"] have "is_digit c" by simp
  then have "c \<noteq> CHR ''-''" by (auto simp: is_digit_def)
  with False cs parse_nat_show_nat [OF assms, of "nat i"] show ?thesis
    by (simp add: parse_int_def show_int_def)
qed

lemma of_char_less_256: "(of_char c :: nat) < 256"
proof -
  have "(of_char c :: nat) mod 256 < 256" by simp
  then show ?thesis by (simp only: of_char_mod_256)
qed

lemma hex_val_hex_digit: "k < 16 \<Longrightarrow> hex_val (hex_digit k) = Some k"
  by (auto simp: hex_val_def hex_digit_def Let_def)

lemma hex_val_zero: "hex_val (CHR ''0'') = Some 0"
  by (simp add: hex_val_def)

lemma hex4_byte:
  "n < 256 \<Longrightarrow> hex4 (CHR ''0'') (CHR ''0'') (hex_digit (n div 16)) (hex_digit (n mod 16)) = Some n"
  by (simp add: hex4_def hex_val_zero hex_val_hex_digit)

lemma parse_chars_escape_char:
  "parse_chars (escape_char c @ s) =
     (case parse_chars s of None \<Rightarrow> None | Some (str, r) \<Rightarrow> Some (c # str, r))"
proof -
  consider (quote) "c = CHR 0x22" | (bs) "c = CHR 0x5C" | (nl) "c = CHR 0x0A"
    | (cr) "c = CHR 0x0D" | (tab) "c = CHR 0x09" | (ff) "c = CHR 0x0C" | (bsp) "c = CHR 0x08"
    | (plain) "c \<noteq> CHR 0x22" "c \<noteq> CHR 0x5C" "32 \<le> (of_char c :: nat)" "(of_char c :: nat) \<le> 126"
    | (other) "c \<noteq> CHR 0x22" "c \<noteq> CHR 0x5C" "c \<noteq> CHR 0x0A" "c \<noteq> CHR 0x0D" "c \<noteq> CHR 0x09"
        "c \<noteq> CHR 0x0C" "c \<noteq> CHR 0x08" "\<not> (32 \<le> (of_char c :: nat) \<and> (of_char c :: nat) \<le> 126)"
    by blast
  then show ?thesis
  proof cases
    case plain
    then have "escape_char c = [c]" by (auto simp: escape_char_def)
    with plain show ?thesis by (simp split: option.splits)
  next
    case other
    then have e: "escape_char c = [CHR 0x5C, CHR ''u'', CHR ''0'', CHR ''0'',
            hex_digit ((of_char c :: nat) div 16), hex_digit ((of_char c :: nat) mod 16)]"
      by (simp add: escape_char_def)
    show ?thesis
      by (simp add: e hex4_byte of_char_less_256 split: option.splits)
  qed (simp_all add: escape_char_def unescape_def split: option.splits)
qed

lemma parse_chars_quote:
  "parse_chars (concat (map escape_char s) @ CHR 0x22 # rest) = Some (s, rest)"
  by (induction s) (simp_all add: parse_chars_escape_char)

lemma skip_ws_space [simp]: "skip_ws (CHR '' '' # s) = skip_ws s"
  by (simp add: skip_ws_def is_ws_def)

lemma skip_ws_non_ws: "\<not> is_ws c \<Longrightarrow> skip_ws (c # s) = c # s"
  by (simp add: skip_ws_def)

lemma parse_value_space [simp]: "parse_value n (CHR '' '' # s) = parse_value n s"
  by (cases n) simp_all

lemma parse_elems_space [simp]: "parse_elems n (CHR '' '' # s) = parse_elems n s"
  by (cases n) simp_all

lemma parse_members_space [simp]: "parse_members n (CHR '' '' # s) = parse_members n s"
  by (cases n) simp_all

lemma show_int_start: "\<exists>c s. show_int i = c # s \<and> (c = CHR ''-'' \<or> is_digit c)"
proof (cases "i < 0")
  case True
  then show ?thesis by (simp add: show_int_def)
next
  case False
  obtain c cs where cs: "show_nat (nat i) = c # cs"
    using show_nat_nonempty [of "nat i"] by (cases "show_nat (nat i)") auto
  with show_nat_hd_digit [of "nat i"] False show ?thesis by (simp add: show_int_def)
qed

lemma json_dumps_start: "\<exists>c s. json_dumps v = c # s \<and> starts c"
proof (cases v)
  case (JInt i)
  with show_int_start [of i] show ?thesis by (auto simp: starts_def)
qed (auto simp: starts_def quote_def)

lemma starts_not:
  "starts c \<Longrightarrow> \<not> is_ws c \<and> c \<noteq> CHR '']'' \<and> c \<noteq> CHR ''}'' \<and> c \<noteq> CHR '',''"
  by (auto simp: starts_def is_ws_def is_digit_def)

lemma parse_value_int:
  assumes "value_end rest"
  shows "parse_value (Suc n) (show_int i @ rest) = Some (JInt i, rest)"
proof -
  from show_int_start [of i] obtain c s where
    cs: "show_int i = c # s" and c: "c = CHR ''-'' \<or> is_digit c" by blast
  from c have nw: "\<not> is_ws c" and q: "c \<noteq> CHR 0x22" and b: "c \<noteq> CHR ''[''"
    and o: "c \<noteq> CHR ''{''" and n: "c \<noteq> CHR ''n''" and t: "c \<noteq> CHR ''t''" and f: "c \<noteq> CHR ''f''"
    by (auto simp: is_ws_def is_digit_def)
  have "parse_value (Suc n) (c # s @ rest) = parse_int (c # s @ rest)"
    using q b o n t f by (simp add: skip_ws_non_ws [OF nw])
  with parse_int_show_int [OF assms, of i] cs show ?thesis by simp
qed

lemma update_fresh: "k \<notin> fst ` set al \<Longrightarrow> AList.update k v al = al @ [(k, v)]"
  by (induction al) auto

lemma foldl_update_distinct:
  "distinct (map fst (acc @ kvs)) \<Longrightarrow>
   foldl (\<lambda>d (k, v). AList.update k v d) acc kvs = acc @ kvs"
proof (induction kvs arbitrary: acc)
  case Nil
  then show ?case by simp
next
  case (Cons kv kvs)
  obtain k v where kv: "kv = (k, v)" by (cases kv)
  from Cons.prems kv have fresh: "k \<notin> fst ` set acc" by auto
  from Cons.prems kv have "distinct (map fst ((acc @ [(k, v)]) @ kvs))" by auto
  from Cons.IH [OF this] fresh kv show ?case by (simp add: update_fresh)
qed

lemma py_dict_distinct: "distinct (map fst kvs) \<Longrightarrow> py_dict kvs = kvs"
  using foldl_update_distinct [of "[]" kvs] by (simp add: py_dict_def)

lemma parse_elems_dumps:
  assumes IH: "\<And>x n rest. x \<in> set xs \<Longrightarrow> jfuel x \<le> n \<Longrightarrow> value_end rest \<Longrightarrow> json_wf x \<Longrightarrow>
                 parse_value n (json_dumps x @ rest) = Some (x, rest)"
    and "xs \<noteq> []" and "list_all json_wf xs"
    and "sum_list (map (\<lambda>x. Suc (jfuel x)) xs) \<le> n"
  shows "parse_elems n (intercalate '', '' (map json_dumps xs) @ CHR '']'' # rest) = Some (xs, rest)"
  using assms
proof (induction xs arbitrary: n)
  case Nil
  then show ?case by simp
next
  case (Cons x xs)
  from Cons.prems(4) obtain m where n: "n = Suc m" and mx: "jfuel x \<le> m"
    and mxs: "sum_list (map (\<lambda>x. Suc (jfuel x)) xs) \<le> m"
    by (cases n) auto
  from Cons.prems(3) have wfx: "json_wf x" and wfxs: "list_all json_wf xs" by auto
  show ?case
  proof (cases xs)
    case Nil
    have "parse_value m (json_dumps x @ CHR '']'' # rest) = Some (x, CHR '']'' # rest)"
      by (rule Cons.prems(1)) (use mx wfx in auto)
    with Nil n show ?thesis by (simp add: skip_ws_non_ws is_ws_def)
  next
    case (Cons y ys)
    let ?tail = "intercalate '', '' (map json_dumps xs) @ CHR '']'' # rest"
    have v: "parse_value m (json_dumps x @ CHR '','' # CHR '' '' # ?tail)
               = Some (x, CHR '','' # CHR '' '' # ?tail)"
      by (rule Cons.prems(1)) (use mx wfx in auto)
    have e: "parse_elems m ?tail = Some (xs, rest)"
      by (rule Cons.IH) (use Cons.prems(1) Cons wfxs mxs in auto)
    from v e Cons n show ?thesis by (simp add: skip_ws_non_ws is_ws_def)
  qed
qed

lemma parse_members_dumps:
  assumes IH: "\<And>kv n rest. kv \<in> set kvs \<Longrightarrow> jfuel (snd kv) \<le> n \<Longrightarrow> value_end rest \<Longrightarrow>
                 json_wf (snd kv) \<Longrightarrow>
                 parse_value n (json_dumps (snd kv) @ rest) = Some (snd kv, rest)"
    and "kvs \<noteq> []" and "list_all json_wf (map snd kvs)"
    and "sum_list (map (\<lambda>x. Suc (jfuel x)) (map snd kvs)) \<le> n"
  shows "parse_members n (intercalate '', '' (map (\<lambda>(k, v). quote k @ '': '' @ json_dumps v) kvs)
                          @ CHR ''}'' # rest) = Some (kvs, rest)"
  using assms
proof (induction kvs arbitrary: n)
  case Nil
  then show ?case by simp
next
  case (Cons kv kvs)
  obtain k x where kv: "kv = (k, x)" by (cases kv)
  from Cons.prems(4) kv obtain m where n: "n = Suc m" and mx: "jfuel x \<le> m"
    and mxs: "sum_list (map (\<lambda>x. Suc (jfuel x)) (map snd kvs)) \<le> m"
    by (cases n) auto
  from Cons.prems(3) kv have wfx: "json_wf x" and wfxs: "list_all json_wf (map snd kvs)"
    by auto
  have key: "\<And>s. parse_chars (concat (map escape_char k) @ CHR 0x22 # s) = Some (k, s)"
    by (rule parse_chars_quote)
  show ?case
  proof (cases kvs)
    case Nil
    have "parse_value m (json_dumps x @ CHR ''}'' # rest) = Some (x, CHR ''}'' # rest)"
      using Cons.prems(1) [of kv m "CHR ''}'' # rest"] mx wfx kv by simp
    with Nil n kv key show ?thesis
      by (simp add: quote_def skip_ws_non_ws is_ws_def)
  next
    case (Cons kv' kvs')
    let ?tail = "intercalate '', '' (map (\<lambda>(k, v). quote k @ '': '' @ json_dumps v) kvs)
                   @ CHR ''}'' # rest"
    have v: "parse_value m (json_dumps x @ CHR '','' # CHR '' '' # ?tail)
               = Some (x, CHR '','' # CHR '' '' # ?tail)"
      using Cons.prems(1) [of kv m "CHR '','' # CHR '' '' # ?tail"] mx wfx kv by simp
    have e: "parse_members m ?tail = Some (kvs, rest)"
      by (rule Cons.IH) (use Cons.prems(1) Cons wfxs mxs in auto)
    from v e Cons n kv key show ?thesis
      by (simp add: quote_def skip_ws_non_ws is_ws_def)
  qed
qed

lemma parse_value_arr:
  "s = c # t \<Longrightarrow> \<not> is_ws c \<Longrightarrow> c \<noteq> CHR '']'' \<Longrightarrow>
   parse_value (Suc m) (CHR ''['' # s) =
     (case parse_elems m s of None \<Rightarrow> None | Some (vs, r') \<Rightarrow> Some (JArr vs, r'))"
  by (simp add: skip_ws_non_ws is_ws_def)

lemma parse_value_obj:
  "s = CHR 0x22 # t \<Longrightarrow>
   parse_value (Suc m) (CHR ''{'' # s) =
     (case parse_members m s of None \<Rightarrow> None
      | Some (kvs, r') \<Rightarrow> Some (JObj (py_dict kvs), r'))"
  by (simp add: skip_ws_non_ws is_ws_def)

lemma parse_value_dumps:
  "jfuel v \<le> n \<Longrightarrow> value_end rest \<Longrightarrow> json_wf v \<Longrightarrow>
   parse_value n (json_dumps v @ rest) = Some (v, rest)"
proof (induction v arbitrary: n rest)
  case JNull
  then obtain m where "n = Suc m" by (cases n) auto
  then show ?case by (simp add: skip_ws_non_ws is_ws_def)
next
  case (JBool b)
  then obtain m where "n = Suc m" by (cases n) auto
  then show ?case by (simp add: skip_ws_non_ws is_ws_def)
next
  case (JInt i)
  then obtain m where "n = Suc m" by (cases n) auto
  with JInt show ?case by (simp only: json_dumps.simps parse_value_int)
next
  case (JStr s)
  then obtain m where "n = Suc m" by (cases n) auto
  then show ?case by (simp add: quote_def skip_ws_non_ws is_ws_def parse_chars_quote)
next
  case (JArr xs)
  from JArr.prems(1) obtain m where n: "n = Suc m"
    and m: "sum_list (map (\<lambda>x. Suc (jfuel x)) xs) \<le> m" by (cases n) auto
  show ?case
  proof (cases xs)
    case Nil
    with n show ?thesis by (simp add: skip_ws_non_ws is_ws_def)
  next
    case (Cons y ys)
    from json_dumps_start [of y] obtain c s where cs: "json_dumps y = c # s" and c: "starts c"
      by blast
    have e: "parse_elems m (intercalate '', '' (map json_dumps xs) @ CHR '']'' # rest)
               = Some (xs, rest)"
      by (rule parse_elems_dumps) (use JArr Cons m in auto)
    have first: "\<exists>t. intercalate '', '' (map json_dumps xs) @ CHR '']'' # rest = c # t"
      using Cons cs by (cases ys) auto
    then obtain t where t: "intercalate '', '' (map json_dumps xs) @ CHR '']'' # rest = c # t"
      by blast
    from starts_not [OF c] have nw: "\<not> is_ws c" and nb: "c \<noteq> CHR '']''" by auto
    have d: "json_dumps (JArr xs) @ rest
               = CHR ''['' # intercalate '', '' (map json_dumps xs) @ CHR '']'' # rest"
      by simp
    show ?thesis
      unfolding d n
      by (simp only: parse_value_arr [OF t nw nb] e option.case prod.case)
  qed
next
  case (JObj kvs)
  from JObj.prems(1) obtain m where n: "n = Suc m"
    and m: "sum_list (map (\<lambda>x. Suc (jfuel x)) (map snd kvs)) \<le> m" by (cases n) auto
  from JObj.prems(3) have dist: "distinct (map fst kvs)"
    and wf: "list_all json_wf (map snd kvs)" by auto
  show ?case
  proof (cases kvs)
    case Nil
    with n show ?thesis by (simp add: skip_ws_non_ws is_ws_def)
  next
    case (Cons kv kvs')
    let ?text = "intercalate '', '' (map (\<lambda>(k, v). quote k @ '': '' @ json_dumps v) kvs)
                   @ CHR ''}'' # rest"
    have e: "parse_members m ?text = Some (kvs, rest)"
    proof (rule parse_members_dumps)
      fix kv n rest
      assume "kv \<in> set kvs" "jfuel (snd kv) \<le> n" "value_end rest" "json_wf (snd kv)"
      moreover have "snd kv \<in> Basic_BNFs.snds kv" by (cases kv) simp
      ultimately show "parse_value n (json_dumps (snd kv) @ rest) = Some (snd kv, rest)"
        by (rule_tac JObj.IH [of kv "snd kv" n rest])
    qed (use Cons wf m in auto)
    have "\<exists>t. ?text = CHR 0x22 # t"
      using Cons by (cases kv; cases kvs') (auto simp: quote_def)
    then obtain t where t: "?text = CHR 0x22 # t" by blast
    have d: "json_dumps (JObj kvs) @ rest = CHR ''{'' # ?text" by simp
    show ?thesis
      unfolding d n
      by (simp only: parse_value_obj [OF t] e option.case prod.case py_dict_distinct [OF dist])
  qed
qed

lemma jfuel_elems_bound:
  "(\<And>x. x \<in> set xs \<Longrightarrow> jfuel x \<le> 2 * length (json_dumps x)) \<Longrightarrow>
   sum_list (map (\<lambda>x. Suc (jfuel x)) xs)
     \<le> 2 * length (intercalate '', '' (map json_dumps xs)) + 1"
proof (induction xs rule: induct_list012)
  case 1
  then show ?case by simp
next
  case (2 x)
  from 2 [of x] show ?case by simp
next
  case (3 x y zs)
  have "sum_list (map (\<lambda>x. Suc (jfuel x)) (y # zs))
          \<le> 2 * length (intercalate '', '' (map json_dumps (y # zs))) + 1"
    by (rule "3.IH"(2)) (use "3.prems" in auto)
  moreover have "jfuel x \<le> 2 * length (json_dumps x)" using "3.prems" by simp
  ultimately show ?case by simp
qed

lemma jfuel_members_bound:
  "(\<And>kv. kv \<in> set kvs \<Longrightarrow> jfuel (snd kv) \<le> 2 * length (json_dumps (snd kv))) \<Longrightarrow>
   sum_list (map (\<lambda>x. Suc (jfuel x)) (map snd kvs))
     \<le> 2 * length (intercalate '', ''
           (map (\<lambda>(k, v). quote k @ '': '' @ json_dumps v) kvs)) + 1"
proof (induction kvs rule: induct_list012)
  case 1
  then show ?case by simp
next
  case (2 kv)
  from 2 [of kv] show ?case by (cases kv) simp
next
  case (3 kv kv' kvs)
  have "sum_list (map (\<lambda>x. Suc (jfuel x)) (map snd (kv' # kvs)))
          \<le> 2 * length (intercalate '', ''
                (map (\<lambda>(k, v). quote k @ '': '' @ json_dumps v) (kv' # kvs))) + 1"
    by (rule "3.IH"(2)) (use "3.prems" in auto)
  moreover have "jfuel (snd kv) \<le> 2 * length (json_dumps (snd kv))" using "3.prems" by simp
  ultimately show ?case by (cases kv) simp
qed

lemma jfuel_bound: "jfuel v \<le> 2 * length (json_dumps v)"
proof (induction v)
  case (JInt i)
  from show_int_start [of i] show ?case by auto
next
  case (JArr xs)
  from jfuel_elems_bound [of xs] JArr show ?case by simp
next
  case (JObj kvs)
  have "sum_list (map (\<lambda>x. Suc (jfuel x)) (map snd kvs))
     \<le> 2 * length (intercalate '', ''
           (map (\<lambda>(k, v). quote k @ '': '' @ json_dumps v) kvs)) + 1"
  proof (rule jfuel_members_bound)
    fix kv assume "kv \<in> set kvs"
    moreover have "snd kv \<in> Basic_BNFs.snds kv" by (cases kv) simp
    ultimately show "jfuel (snd kv) \<le> 2 * length (json_dumps (snd kv))" by (rule JObj.IH)
  qed
  then show ?case by simp
qed (simp_all add: quote_def)

lemma json_loads_dumps: "json_wf v \<Longrightarrow> json_loads (json_dumps v) = Some v"
proof -
  assume wf: "json_wf v"
  have "jfuel v \<le> 2 * length (json_dumps v) + 2" using jfuel_bound [of v] by simp
  from parse_value_dumps [OF this _ wf, of "[]"] show ?thesis
    by (simp add: json_loads_def skip_ws_def)
qed

subsection \<open>The table and the handlers\<close>

lemma one_or_none_Some: "one_or_none xs = Inr (Some x) \<longleftrightarrow> xs = [x]"
  by (cases xs rule: one_or_none.cases) auto

lemma one_or_none_None: "one_or_none xs = Inr None \<longleftrightarrow> xs = []"
  by (cases xs rule: one_or_none.cases) auto


lemma filter_replace_same:
  "P x \<Longrightarrow> filter P (map (\<lambda>r. if P r then x else r) xs) = map (\<lambda>r. x) (filter P xs)"
  by (induction xs) auto

lemma filter_replace_other:
  "\<not> Q x \<Longrightarrow> (\<And>r. Q r \<Longrightarrow> \<not> P r) \<Longrightarrow>
   filter Q (map (\<lambda>r. if P r then x else r) xs) = filter Q xs"
  by (induction xs) auto

lemma map_replace_self:
  "filter P xs = [x] \<Longrightarrow> map (\<lambda>r. if P r then x else r) xs = xs"
proof (induction xs)
  case Nil
  then show ?case by simp
next
  case (Cons a xs)
  show ?case
  proof (cases "P a")
    case True
    with Cons.prems have ax: "a = x" and rest: "filter P xs = []" by auto
    from rest have "\<forall>r\<in>set xs. \<not> P r" by (simp add: filter_empty_conv)
    then have "map (\<lambda>r. if P r then x else r) xs = xs" by (induction xs) auto
    with ax True show ?thesis by simp
  next
    case False
    with Cons show ?thesis by simp
  qed
qed

lemma assign_title_frame:
  "assign_title body drink = Inr drink' \<Longrightarrow>
   drink_id drink' = drink_id drink \<and> recipe drink' = recipe drink"
  by (auto simp: assign_title_def split: sum.splits if_splits)

lemma assign_recipe_frame:
  "assign_recipe body drink = Inr drink' \<Longrightarrow>
   drink_id drink' = drink_id drink \<and> title drink' = title drink"
  by (auto simp: assign_recipe_def split: sum.splits if_splits)

lemma assign_title_obj:
  "assign_title (JObj kvs) drink =
     Inr (case map_of kvs ''title'' of None \<Rightarrow> drink | Some t \<Rightarrow> drink\<lparr>title := t\<rparr>)"
  by (auto simp: assign_title_def map_of_eq_None_iff [symmetric] split: option.splits)

lemma assign_recipe_obj:
  "assign_recipe (JObj kvs) drink =
     Inr (case map_of kvs ''recipe'' of None \<Rightarrow> drink
          | Some r \<Rightarrow> drink\<lparr>recipe := json_dumps r\<rparr>)"
  by (auto simp: assign_recipe_def map_of_eq_None_iff [symmetric] split: option.splits)

lemma edit_drink_obj:
  assumes "filter_by_id d i = [drink]" and "get_json req = Returns (JObj kvs)"
  shows "edit_drink_by_id fault req payload i d =
     (let drink2 = (case map_of kvs ''recipe'' of None \<Rightarrow> (\<lambda>x. x)
                    | Some r \<Rightarrow> recipe_update (\<lambda>_. json_dumps r))
                   ((case map_of kvs ''title'' of None \<Rightarrow> (\<lambda>x. x)
                     | Some t \<Rightarrow> title_update (\<lambda>_. t)) drink)
      in if fault then (Inl (Abort 400), d)
         else (case long drink2 of
                 Inl e \<Rightarrow> Inl (Uncaught e)
               | Inr l \<Rightarrow> Inr (success_drinks (JArr [l])),
               d\<lparr>rows := map (\<lambda>r. if drink_id r = Some i then drink2 else r) (rows d)\<rparr>))"
proof -
  from assms(1) have "drink \<in> set (filter_by_id d i)" by simp
  then have id: "drink_id drink = Some i" by (simp add: filter_by_id_def)
  show ?thesis
    using assms id
    by (auto simp: edit_drink_by_id_def assign_title_obj assign_recipe_obj Drink_insert_def
          Let_def split: option.splits sum.splits)
qed

lemma serve_200:
  "serve check fault rt req d = (Response body 200, d') \<longleftrightarrow>
   dispatch check fault rt req d = (Inr body, d')"
  by (cases "dispatch check fault rt req d")
     (auto simp: serve_def errorhandler_def not_found_def unprocessable_def bad_request_def
        server_error_def handle_auth_errors_def split: sum.splits failure.splits)

lemma requires_auth_Inr:
  "requires_auth p check f req d = (Inr body, d') \<Longrightarrow>
   \<exists>payload. token_verifier check (authorization req) = Inr payload
            \<and> p \<in> permission_set payload \<and> f payload d = (Inr body, d')"
  by (auto simp: requires_auth_def split: sum.splits if_splits)

lemma add_drink_success:
  assumes "add_drink fault req payload d = (Inr body, d')"
  shows "\<exists>b t r l. get_json req = Returns b
               \<and> py_getitem b ''title'' = Inr t
               \<and> py_getitem b ''recipe'' = Inr r
               \<and> \<not> fault
               \<and> d' = d\<lparr>rows := rows d @ [\<lparr>drink_id = Some (next_id d), title = t,
                                              recipe = json_dumps r\<rparr>],
                        next_id := next_id d + 1\<rparr>
               \<and> long \<lparr>drink_id = Some (next_id d), title = t, recipe = json_dumps r\<rparr> = Inr l
               \<and> body = success_drinks l"
  using assms
  by (auto simp: add_drink_def Drink_insert_def Let_def
        split: sum.splits if_splits body_read.splits)

lemma edit_drink_success:
  assumes "edit_drink_by_id fault req payload i d = (Inr body, d')"
  shows "\<exists>b drink drink1 drink2 l.
           get_json req = Returns b
         \<and> filter_by_id d i = [drink]
         \<and> assign_title b drink = Inr drink1
         \<and> assign_recipe b drink1 = Inr drink2
         \<and> \<not> fault
         \<and> drink_id drink2 = Some i
         \<and> d' = d\<lparr>rows := map (\<lambda>r. if drink_id r = Some i then drink2 else r) (rows d)\<rparr>
         \<and> filter_by_id d' i = [drink2]
         \<and> long drink2 = Inr l
         \<and> body = success_drinks (JArr [l])"
proof -
  from assms obtain drink where one: "filter_by_id d i = [drink]"
    by (auto simp: edit_drink_by_id_def one_or_none_Some split: sum.splits option.splits)
  then have "drink \<in> set (filter_by_id d i)" by simp
  then have id: "drink_id drink = Some i" by (simp add: filter_by_id_def)
  from assms one obtain b where g: "get_json req = Returns b"
    by (cases "get_json req") (auto simp: edit_drink_by_id_def)
  from assms one g obtain drink1 where a: "assign_title b drink = Inr drink1"
    by (cases "assign_title b drink") (auto simp: edit_drink_by_id_def)
  from assms one g a obtain drink2 where b: "assign_recipe b drink1 = Inr drink2"
    by (cases "assign_recipe b drink1") (auto simp: edit_drink_by_id_def)
  from assms one g a b have nf: "\<not> fault"
    by (auto simp: edit_drink_by_id_def Drink_insert_def)
  from a b id have id2: "drink_id drink2 = Some i"
    by (auto dest!: assign_title_frame assign_recipe_frame)
  from nf id2 have ins: "Drink_insert fault drink2 d =
      Inr (drink2, d\<lparr>rows := map (\<lambda>r. if drink_id r = Some i then drink2 else r) (rows d)\<rparr>)"
    by (simp add: Drink_insert_def)
  from assms one g a b ins obtain l where
    l: "long drink2 = Inr l" and body: "body = success_drinks (JArr [l])"
    and d': "d' = d\<lparr>rows := map (\<lambda>r. if drink_id r = Some i then drink2 else r) (rows d)\<rparr>"
    by (cases "long drink2") (auto simp: edit_drink_by_id_def)
  have "filter_by_id d' i = [drink2]"
    using one id2 by (simp add: d' filter_by_id_def filter_replace_same)
  with g one a b nf id2 d' l body show ?thesis by blast
qed

lemma py_getitem_Inr:
  "py_getitem body k = Inr v \<longleftrightarrow> (\<exists>kvs. body = JObj kvs \<and> map_of kvs k = Some v)"
  by (cases body) (auto split: option.splits)

lemma assign_recipe_given:
  "py_getitem body ''recipe'' = Inr r \<Longrightarrow>
   assign_recipe body drink = Inr (drink\<lparr>recipe := json_dumps r\<rparr>)"
  by (auto simp: py_getitem_Inr assign_recipe_obj)

lemma json_wf_member:
  "json_wf (JObj kvs) \<Longrightarrow> map_of kvs k = Some v \<Longrightarrow> json_wf v"
  by (auto simp: list_all_iff dest!: map_of_SomeD)

lemma long_valid: "long drink = Inr l \<Longrightarrow> valid_recipe drink"
  by (auto simp: long_def valid_recipe_def split: option.splits)

lemma only_color:
  "distinct (map fst kvs) \<Longrightarrow> map_of kvs ''color'' = Some c \<Longrightarrow>
   set (map fst kvs) \<subseteq> {''color'', ''parts''} \<Longrightarrow>
   filter (\<lambda>kv. fst kv \<noteq> ''parts'') kvs = [(''color'', c)]"
proof (induction kvs)
  case Nil
  then show ?case by simp
next
  case (Cons kv kvs)
  obtain k v where kv: "kv = (k, v)" by (cases kv)
  show ?case
  proof (cases "k = ''color''")
    case True
    with Cons.prems kv have v: "v = c" and "''color'' \<notin> fst ` set kvs" by auto
    with Cons.prems(3) have "\<forall>x\<in>set kvs. fst x = ''parts''"
    proof (intro ballI)
      fix x assume x: "x \<in> set kvs"
      with Cons.prems(3) have "fst x \<in> {''color'', ''parts''}" by auto
      moreover from x \<open>''color'' \<notin> fst ` set kvs\<close> have "fst x \<noteq> ''color''" by force
      ultimately show "fst x = ''parts''" by simp
    qed
    then have "filter (\<lambda>kv. fst kv \<noteq> ''parts'') kvs = []" by (simp add: filter_empty_conv)
    with True kv v show ?thesis by simp
  next
    case False
    with Cons.prems(3) kv have "k = ''parts''" by auto
    with Cons kv False show ?thesis by auto
  qed
qed

lemma short_entry_ingredient:
  "ingredient e \<Longrightarrow> short_entry e = Inr (hide_parts_entry e)"
proof (cases e)
  case (JObj kvs)
  assume "ingredient e"
  with JObj have d: "distinct (map fst kvs)" and c: "''color'' \<in> fst ` set kvs"
    and s: "set (map fst kvs) \<subseteq> {''color'', ''parts''}" by auto
  from c obtain v where v: "map_of kvs ''color'' = Some v"
    by (cases "map_of kvs ''color''") (auto simp: map_of_eq_None_iff)
  from only_color [OF d v s] v JObj show ?thesis by (simp add: short_entry_def)
qed auto

lemma try_map_short_entry:
  "list_all ingredient es \<Longrightarrow> try_map short_entry es = Inr (map hide_parts_entry es)"
  by (induction es) (simp_all add: short_entry_ingredient)

lemma short_data_model:
  assumes "json_loads (recipe drink) = Some (JArr es)" and "list_all ingredient es"
  shows "long drink = Inr (JObj [(''id'', id_json (drink_id drink)), (''title'', title drink),
                                 (''recipe'', JArr es)])"
    and "short drink = Inr (JObj [(''id'', id_json (drink_id drink)), (''title'', title drink),
                                  (''recipe'', JArr (map hide_parts_entry es))])"
    and "\<exists>l. long drink = Inr l \<and> short drink = Inr (hide_parts l)"
  using assms by (simp_all add: long_def short_def try_map_short_entry)

lemma try_map_projection:
  assumes "\<And>x. x \<in> set xs \<Longrightarrow> \<exists>l. f x = Inr l \<and> g x = Inr (h l)"
  shows "\<exists>ls. try_map f xs = Inr ls \<and> try_map g xs = Inr (map h ls)"
  using assms
proof (induction xs)
  case Nil
  then show ?case by simp
next
  case (Cons x xs)
  from Cons.prems [of x] obtain l where l: "f x = Inr l" "g x = Inr (h l)" by auto
  from Cons.IH Cons.prems obtain ls where
    ls: "try_map f xs = Inr ls" "try_map g xs = Inr (map h ls)" by auto
  from l ls show ?case by simp
qed

section \<open>The error envelope\<close>




section \<open>Listing an empty collection\<close>

text \<open>
  Claim C4. When no drink is stored, \<open>GET /drinks\<close> answers 404, and so does
  \<open>GET /drinks-detail\<close> for a request whose token is verified and holds
  \<open>get:drinks-detail\<close>; neither answers 200 with an empty list.
\<close>

theorem empty_collection_404:
  assumes "rows d = []"
    and "token_verifier check (authorization req) = Inr payload"
    and "''get:drinks-detail'' \<in> permission_set payload"
  shows "serve check fault GET_drinks req' d =
           (Response (JObj [(''success'', JBool False), (''error'', JInt 404),
                            (''message'', JStr ''resource not found'')]) 404, d)
       \<and> serve check fault GET_drinks_detail req d =
           (Response (JObj [(''success'', JBool False), (''error'', JInt 404),
                            (''message'', JStr ''resource not found'')]) 404, d)"
  using assms
  by (simp add: serve_def dispatch_def requires_auth_def drinks_def drinks_detail_def
        query_all_def errorhandler_def not_found_def envelope_def)

theorem empty_collection_404_witness:
  "rows no_drinks = []
   \<and> token_verifier as_manager (authorization (sends JNull)) = Inr manager
   \<and> ''get:drinks-detail'' \<in> permission_set manager
   \<and> serve as_manager False GET_drinks \<lparr>authorization = None, get_json = Returns JNull\<rparr> no_drinks
     = (Response (JObj [(''success'', JBool False), (''error'', JInt 404),
                        (''message'', JStr ''resource not found'')]) 404, no_drinks)
   \<and> serve as_manager False GET_drinks_detail (sends JNull) no_drinks
     = (Response (JObj [(''success'', JBool False), (''error'', JInt 404),
                        (''message'', JStr ''resource not found'')]) 404, no_drinks)"
proof -
  have e: "rows no_drinks = []" by (simp add: no_drinks_def)
  have h: "token_verifier as_manager (authorization (sends JNull)) = Inr manager"
    by (simp add: token_verifier_def sends_def as_manager_def)
  have m: "''get:drinks-detail'' \<in> permission_set manager"
    by (simp add: permission_set_def manager_def)
  from empty_collection_404 [OF e h m, of False "\<lparr>authorization = None, get_json = Returns JNull\<rparr>"]
    e h m
  show ?thesis by blast
qed

section \<open>A token without the permission\<close>

text \<open>
  Claim C3. A request whose token is verified but whose permissions lack the one the
  route requires is answered 401; the guard returns before the wrapped handler, whatever
  that handler is, so the stored drinks are the same afterwards. This holds on each of
  the four guarded routes.
\<close>

theorem missing_permission_401:
  assumes "token_verifier check (authorization req) = Inr payload"
  shows "(p \<notin> permission_set payload \<longrightarrow>
            requires_auth p check f req d = (Inl (Auth (auth_error PermissionMissing)), d))
       \<and> (''get:drinks-detail'' \<notin> permission_set payload \<longrightarrow>
            serve check fault GET_drinks_detail req d =
              (Response (JObj [(''success'', JBool False), (''error'', JInt 401),
                               (''message'', JStr ''PermissionMissing'')]) 401, d))
       \<and> (''post:drinks'' \<notin> permission_set payload \<longrightarrow>
            serve check fault POST_drinks req d =
              (Response (JObj [(''success'', JBool False), (''error'', JInt 401),
                               (''message'', JStr ''PermissionMissing'')]) 401, d))
       \<and> (''patch:drinks'' \<notin> permission_set payload \<longrightarrow>
            serve check fault (PATCH_drinks i) req d =
              (Response (JObj [(''success'', JBool False), (''error'', JInt 401),
                               (''message'', JStr ''PermissionMissing'')]) 401, d))
       \<and> (''delete:drinks'' \<notin> permission_set payload \<longrightarrow>
            serve check fault (DELETE_drinks i) req d =
              (Response (JObj [(''success'', JBool False), (''error'', JInt 401),
                               (''message'', JStr ''PermissionMissing'')]) 401, d))"
  using assms
  by (simp add: serve_def dispatch_def requires_auth_def errorhandler_def
        handle_auth_errors_def envelope_def auth_error_def)

theorem missing_permission_401_witness:
  "token_verifier as_barista
     (authorization (sends (JObj [(''title'', JStr ''Water''), (''recipe'', water)])))
   = Inr barista
   \<and> ''post:drinks'' \<notin> permission_set barista
   \<and> serve as_barista False POST_drinks
       (sends (JObj [(''title'', JStr ''Water''), (''recipe'', water)])) no_drinks
     = (Response (JObj [(''success'', JBool False), (''error'', JInt 401),
                        (''message'', JStr ''PermissionMissing'')]) 401, no_drinks)"
proof -
  let ?req = "sends (JObj [(''title'', JStr ''Water''), (''recipe'', water)])"
  have h: "token_verifier as_barista (authorization ?req) = Inr barista"
    by (simp add: token_verifier_def sends_def as_barista_def)
  have n: "''post:drinks'' \<notin> permission_set barista"
    by (simp add: permission_set_def barista_def)
  from missing_permission_401 [OF h, of _ _ no_drinks False] n h
  show ?thesis by blast
qed

section \<open>Malformed request bodies\<close>

text \<open>
  Claim C1 says that a request with a malformed body is answered 422 or 400 and that no
  parse exception escapes. The handlers do otherwise: \<open>body['title']\<close> and
  \<open>body['recipe']\<close> of \<open>add_drink\<close> and \<open>'title' in body\<close> of \<open>edit_drink_by_id\<close> stand
  outside the \<open>try\<close> blocks. A create request whose JSON body has no \<open>title\<close> (or no
  \<open>recipe\<close>) raises \<open>KeyError\<close>, a create or update request for which
  \<open>request.get_json()\<close> returns \<open>None\<close> (the JSON body \<open>null\<close>; before Flask 2.1 also an
  absent or non-JSON body) raises \<open>TypeError\<close>, and the answer is 500.
\<close>

theorem malformed_body_is_500:
  "serve as_manager False POST_drinks (sends (JObj [(''recipe'', water)])) no_drinks
   = (Response (JObj [(''success'', JBool False), (''error'', JInt 500),
                      (''message'', JStr ''server error'')]) 500, no_drinks)
   \<and> add_drink fault (sends (JObj [(''recipe'', water)])) payload d
     = (Inl (Uncaught (KeyError ''title'')), d)
   \<and> add_drink fault (sends (JObj [(''title'', JStr ''Water'')])) payload d
     = (Inl (Uncaught (KeyError ''recipe'')), d)
   \<and> add_drink fault (sends JNull) payload d = (Inl (Uncaught TypeError), d)
   \<and> edit_drink_by_id fault (sends JNull) payload 1 (table_of (drink_1 ''Water'' water))
     = (Inl (Uncaught TypeError), table_of (drink_1 ''Water'' water))
   \<and> serve as_manager False (PATCH_drinks 1) (sends JNull) (table_of (drink_1 ''Water'' water))
     = (Response (JObj [(''success'', JBool False), (''error'', JInt 500),
                        (''message'', JStr ''server error'')]) 500,
        table_of (drink_1 ''Water'' water))"
  by (simp add: serve_def dispatch_def requires_auth_def token_verifier_def permission_set_def
        add_drink_def edit_drink_by_id_def filter_by_id_def assign_title_def
        errorhandler_def server_error_def envelope_def
        sends_def as_manager_def manager_def no_drinks_def table_of_def drink_1_def)

section \<open>Deleting twice\<close>

text \<open>
  Claim C6. After a delete of an existing id has succeeded, the lookup of that id finds
  nothing, and a second delete of the same id is answered 404, whether or not the
  storage layer would fail: the lookup comes first.
\<close>

theorem delete_twice:
  assumes "serve check fault (DELETE_drinks i) req d = (Response body 200, d')"
  shows "one_or_none (filter_by_id d' i) = Inr None
       \<and> serve check fault' (DELETE_drinks i) req d' =
           (Response (JObj [(''success'', JBool False), (''error'', JInt 404),
                            (''message'', JStr ''resource not found'')]) 404, d')"
proof -
  from assms obtain payload drink where
    tv: "token_verifier check (authorization req) = Inr payload"
    and perm: "''delete:drinks'' \<in> permission_set payload"
    and d': "d' = d\<lparr>rows := filter (\<lambda>r. drink_id r \<noteq> drink_id drink) (rows d)\<rparr>"
    and one: "filter_by_id d i = [drink]"
    by (auto simp: serve_def dispatch_def requires_auth_def delete_drink_def Drink_delete_def
          errorhandler_def not_found_def unprocessable_def bad_request_def server_error_def
          handle_auth_errors_def one_or_none_Some
          split: sum.splits option.splits if_splits prod.splits)
  from one have "drink \<in> set (filter_by_id d i)" by simp
  then have id: "drink_id drink = Some i" by (simp add: filter_by_id_def)
  have gone: "filter_by_id d' i = []"
    by (simp add: d' filter_by_id_def id)
  show ?thesis
    using gone tv perm
    by (simp add: serve_def dispatch_def requires_auth_def delete_drink_def
          errorhandler_def not_found_def envelope_def)
qed

theorem delete_twice_witness:
  "serve as_manager False (DELETE_drinks 1) (sends JNull) (table_of (drink_1 ''Water'' water))
   = (Response (JObj [(''success'', JBool True), (''delete'', JInt 1)]) 200,
      \<lparr>rows = [], next_id = 2\<rparr>)
   \<and> one_or_none (filter_by_id \<lparr>rows = [], next_id = 2\<rparr> 1) = Inr None
   \<and> serve as_manager True (DELETE_drinks 1) (sends JNull) \<lparr>rows = [], next_id = 2\<rparr>
     = (Response (JObj [(''success'', JBool False), (''error'', JInt 404),
                        (''message'', JStr ''resource not found'')]) 404,
        \<lparr>rows = [], next_id = 2\<rparr>)"
proof -
  have h: "serve as_manager False (DELETE_drinks 1) (sends JNull)
             (table_of (drink_1 ''Water'' water))
   = (Response (JObj [(''success'', JBool True), (''delete'', JInt 1)]) 200,
      \<lparr>rows = [], next_id = 2\<rparr>)"
    by code_simp
  from delete_twice [OF h, of True] h show ?thesis by blast
qed

section \<open>Updating the title only\<close>

text \<open>
  Claim C5. An update of an existing drink whose body has a \<open>title\<close> and no \<open>recipe\<close>
  leaves the stored recipe as it was; when the storage layer does not fail, the lookup of
  that id right afterwards returns the drink with the new title and nothing else changed
  (when it fails, nothing is written and the answer is 400). The rows of every other id
  are the same as before.
\<close>

theorem title_update_keeps_recipe:
  assumes "one_or_none (filter_by_id d i) = Inr (Some drink)"
    and "get_json req = Returns (JObj kvs)"
    and "map_of kvs ''title'' = Some t"
    and "map_of kvs ''recipe'' = None"
    and "edit_drink_by_id fault req payload i d = (res, d')"
  shows "(\<exists>drink'. one_or_none (filter_by_id d' i) = Inr (Some drink')
                  \<and> recipe drink' = recipe drink \<and> drink_id drink' = drink_id drink)
       \<and> (\<not> fault \<longrightarrow> one_or_none (filter_by_id d' i) = Inr (Some (drink\<lparr>title := t\<rparr>)))
       \<and> (fault \<longrightarrow> d' = d \<and> res = Inl (Abort 400))
       \<and> (\<forall>j. j \<noteq> i \<longrightarrow> filter_by_id d' j = filter_by_id d j)"
proof -
  from assms(1) have one: "filter_by_id d i = [drink]" by (simp add: one_or_none_Some)
  show ?thesis
  proof (cases fault)
    case True
    with assms(5) one assms(2) show ?thesis
      by (simp add: edit_drink_obj one_or_none_Some Let_def)
  next
    case False
    with assms(5) one assms(2,3,4)
    have d': "d' = d\<lparr>rows := map (\<lambda>r. if drink_id r = Some i then drink\<lparr>title := t\<rparr> else r) (rows d)\<rparr>"
      by (auto simp: edit_drink_obj Let_def)
    from one have "drink \<in> set (filter_by_id d i)" by simp
    then have id: "drink_id drink = Some i" by (simp add: filter_by_id_def)
    have a: "filter_by_id d' i = [drink\<lparr>title := t\<rparr>]"
      using one id by (simp add: d' filter_by_id_def filter_replace_same)
    have b: "\<forall>j. j \<noteq> i \<longrightarrow> filter_by_id d' j = filter_by_id d j"
      using id by (auto simp: d' filter_by_id_def intro!: filter_replace_other)
    show ?thesis using a b False by (simp add: one_or_none_Some)
  qed
qed

theorem title_update_keeps_recipe_witness:
  "one_or_none (filter_by_id (table_of (drink_1 ''Water'' water)) 1)
     = Inr (Some (drink_1 ''Water'' water))
   \<and> get_json (sends (JObj [(''title'', JStr ''Tea'')]))
     = Returns (JObj [(''title'', JStr ''Tea'')])
   \<and> map_of [(''title'', JStr ''Tea'')] ''title'' = Some (JStr ''Tea'')
   \<and> map_of [(''title'', JStr ''Tea'')] ''recipe'' = None
   \<and> edit_drink_by_id False (sends (JObj [(''title'', JStr ''Tea'')])) manager 1
       (table_of (drink_1 ''Water'' water))
     = (Inr (JObj [(''success'', JBool True),
          (''drinks'', JArr [JObj [(''id'', JInt 1), (''title'', JStr ''Tea''),
                                   (''recipe'', water)]])]),
        table_of (drink_1 ''Tea'' water))
   \<and> one_or_none (filter_by_id (table_of (drink_1 ''Tea'' water)) 1)
     = Inr (Some ((drink_1 ''Water'' water)\<lparr>title := JStr ''Tea''\<rparr>))
   \<and> recipe ((drink_1 ''Water'' water)\<lparr>title := JStr ''Tea''\<rparr>) = json_dumps water"
proof -
  let ?req = "sends (JObj [(''title'', JStr ''Tea'')])"
  have a: "one_or_none (filter_by_id (table_of (drink_1 ''Water'' water)) 1)
             = Inr (Some (drink_1 ''Water'' water))"
    by (simp add: filter_by_id_def table_of_def drink_1_def)
  have b: "get_json ?req = Returns (JObj [(''title'', JStr ''Tea'')])"
    by (simp add: sends_def)
  have c: "map_of [(''title'', JStr ''Tea'')] ''title'' = Some (JStr ''Tea'')" by simp
  have e: "map_of [(''title'', JStr ''Tea'')] ''recipe'' = None" by simp
  have f: "edit_drink_by_id False ?req manager 1 (table_of (drink_1 ''Water'' water))
     = (Inr (JObj [(''success'', JBool True),
          (''drinks'', JArr [JObj [(''id'', JInt 1), (''title'', JStr ''Tea''),
                                   (''recipe'', water)]])]),
        table_of (drink_1 ''Tea'' water))"
    by code_simp
  from title_update_keeps_recipe [OF a b c e f] have
    g: "one_or_none (filter_by_id (table_of (drink_1 ''Tea'' water)) 1)
          = Inr (Some ((drink_1 ''Water'' water)\<lparr>title := JStr ''Tea''\<rparr>))"
    by blast
  have r: "recipe ((drink_1 ''Water'' water)\<lparr>title := JStr ''Tea''\<rparr>) = json_dumps water"
    by (simp add: drink_1_def)
  from a b c e f g r show ?thesis by (intro conjI)
qed

section \<open>The shapes of the success responses\<close>

text \<open>
  Claim C2. The three write operations answer 200 with different shapes: create with
  \<open>{success: true, drinks: l}\<close> where \<open>l\<close> is the bare \<open>long\<close> object of the new drink (the
  row appended to the table), update with \<open>{success: true, drinks: [l]}\<close> where \<open>l\<close> is the
  \<open>long\<close> object of the drink now stored under the id, and delete with
  \<open>{success: true, delete: id}\<close> for the id of the request. A create request with a
  verified token holding \<open>post:drinks\<close>, a title and a recipe, and no storage failure,
  does succeed: the answer is 200 with the bare object of the new drink, its id the next
  one, its title and recipe those of the body.
\<close>

theorem success_shapes:
  "(serve check fault POST_drinks req d = (Response body 200, d') \<longrightarrow>
      (\<exists>drink l fields. rows d' = rows d @ [drink] \<and> long drink = Inr l \<and> l = JObj fields
         \<and> body = JObj [(''success'', JBool True), (''drinks'', l)]))
   \<and> (serve check fault (PATCH_drinks i) req d = (Response body 200, d') \<longrightarrow>
      (\<exists>drink l. one_or_none (filter_by_id d' i) = Inr (Some drink) \<and> long drink = Inr l
         \<and> body = JObj [(''success'', JBool True), (''drinks'', JArr [l])]))
   \<and> (serve check fault (DELETE_drinks i) req d = (Response body 200, d') \<longrightarrow>
      body = JObj [(''success'', JBool True), (''delete'', JInt i)])
   \<and> (token_verifier check (authorization req) = Inr payload
        \<and> ''post:drinks'' \<in> permission_set payload
        \<and> get_json req = Returns (JObj kvs) \<and> map_of kvs ''title'' = Some t
        \<and> map_of kvs ''recipe'' = Some r \<and> json_wf r \<longrightarrow>
      serve check False POST_drinks req d =
        (Response (JObj [(''success'', JBool True),
           (''drinks'', JObj [(''id'', JInt (next_id d)), (''title'', t), (''recipe'', r)])]) 200,
         d\<lparr>rows := rows d @ [\<lparr>drink_id = Some (next_id d), title = t,
                                   recipe = json_dumps r\<rparr>],
           next_id := next_id d + 1\<rparr>))"
proof (intro conjI impI)
  assume "token_verifier check (authorization req) = Inr payload
        \<and> ''post:drinks'' \<in> permission_set payload
        \<and> get_json req = Returns (JObj kvs) \<and> map_of kvs ''title'' = Some t
        \<and> map_of kvs ''recipe'' = Some r \<and> json_wf r"
  then show "serve check False POST_drinks req d =
        (Response (JObj [(''success'', JBool True),
           (''drinks'', JObj [(''id'', JInt (next_id d)), (''title'', t), (''recipe'', r)])]) 200,
         d\<lparr>rows := rows d @ [\<lparr>drink_id = Some (next_id d), title = t,
                                   recipe = json_dumps r\<rparr>],
           next_id := next_id d + 1\<rparr>)"
    by (simp add: serve_def dispatch_def requires_auth_def add_drink_def Drink_insert_def
          long_def json_loads_dumps id_json_def success_drinks_def Let_def)
next
  assume "serve check fault POST_drinks req d = (Response body 200, d')"
  then obtain payload where "add_drink fault req payload d = (Inr body, d')"
    by (auto simp: serve_200 dispatch_def dest!: requires_auth_Inr)
  from add_drink_success [OF this] obtain t r l where
    d': "d' = d\<lparr>rows := rows d @ [\<lparr>drink_id = Some (next_id d), title = t,
                                      recipe = json_dumps r\<rparr>],
                  next_id := next_id d + 1\<rparr>"
    and l: "long \<lparr>drink_id = Some (next_id d), title = t, recipe = json_dumps r\<rparr> = Inr l"
    and body: "body = success_drinks l"
    by blast
  from l obtain fields where "l = JObj fields"
    by (auto simp: long_def split: option.splits)
  with d' l body
  show "\<exists>drink l fields. rows d' = rows d @ [drink] \<and> long drink = Inr l \<and> l = JObj fields
         \<and> body = JObj [(''success'', JBool True), (''drinks'', l)]"
    by (auto simp: success_drinks_def)
next
  assume "serve check fault (PATCH_drinks i) req d = (Response body 200, d')"
  then obtain payload where "edit_drink_by_id fault req payload i d = (Inr body, d')"
    by (auto simp: serve_200 dispatch_def dest!: requires_auth_Inr)
  from edit_drink_success [OF this]
  show "\<exists>drink l. one_or_none (filter_by_id d' i) = Inr (Some drink) \<and> long drink = Inr l
         \<and> body = JObj [(''success'', JBool True), (''drinks'', JArr [l])]"
    by (auto simp: success_drinks_def one_or_none_Some)
next
  assume "serve check fault (DELETE_drinks i) req d = (Response body 200, d')"
  then obtain payload where "delete_drink fault payload i d = (Inr body, d')"
    by (auto simp: serve_200 dispatch_def dest!: requires_auth_Inr)
  then show "body = JObj [(''success'', JBool True), (''delete'', JInt i)]"
    by (auto simp: delete_drink_def split: sum.splits option.splits)
qed

theorem success_shapes_witness:
  "serve as_manager False POST_drinks
     (sends (JObj [(''title'', JStr ''Water''), (''recipe'', water)])) no_drinks
   = (Response (JObj [(''success'', JBool True),
        (''drinks'', JObj [(''id'', JInt 1), (''title'', JStr ''Water''),
                           (''recipe'', water)])]) 200,
      table_of (drink_1 ''Water'' water))
   \<and> serve as_manager False (PATCH_drinks 1) (sends (JObj [(''title'', JStr ''Tea'')]))
       (table_of (drink_1 ''Water'' water))
     = (Response (JObj [(''success'', JBool True),
          (''drinks'', JArr [JObj [(''id'', JInt 1), (''title'', JStr ''Tea''),
                                   (''recipe'', water)]])]) 200,
        table_of (drink_1 ''Tea'' water))
   \<and> serve as_manager False (DELETE_drinks 1) (sends JNull) (table_of (drink_1 ''Tea'' water))
     = (Response (JObj [(''success'', JBool True), (''delete'', JInt 1)]) 200,
        \<lparr>rows = [], next_id = 2\<rparr>)
   \<and> (\<exists>drink l fields.
        rows (table_of (drink_1 ''Water'' water)) = rows no_drinks @ [drink]
        \<and> long drink = Inr l \<and> l = JObj fields
        \<and> JObj [(''success'', JBool True),
             (''drinks'', JObj [(''id'', JInt 1), (''title'', JStr ''Water''),
                                (''recipe'', water)])]
          = JObj [(''success'', JBool True), (''drinks'', l)])
   \<and> (\<exists>drink l.
        one_or_none (filter_by_id (table_of (drink_1 ''Tea'' water)) 1) = Inr (Some drink)
        \<and> long drink = Inr l
        \<and> JObj [(''success'', JBool True),
             (''drinks'', JArr [JObj [(''id'', JInt 1), (''title'', JStr ''Tea''),
                                      (''recipe'', water)]])]
          = JObj [(''success'', JBool True), (''drinks'', JArr [l])])
   \<and> token_verifier as_manager
       (authorization (sends (JObj [(''title'', JStr ''Water''), (''recipe'', water)])))
     = Inr manager
   \<and> ''post:drinks'' \<in> permission_set manager
   \<and> json_wf water
   \<and> serve as_manager False POST_drinks
       (sends (JObj [(''title'', JStr ''Water''), (''recipe'', water)])) no_drinks
     = (Response (JObj [(''success'', JBool True),
          (''drinks'', JObj [(''id'', JInt (next_id no_drinks)), (''title'', JStr ''Water''),
                             (''recipe'', water)])]) 200,
        no_drinks\<lparr>rows := rows no_drinks @
                      [\<lparr>drink_id = Some (next_id no_drinks), title = JStr ''Water'',
                        recipe = json_dumps water\<rparr>],
                    next_id := next_id no_drinks + 1\<rparr>)"
proof -
  let ?req1 = "sends (JObj [(''title'', JStr ''Water''), (''recipe'', water)])"
  let ?req2 = "sends (JObj [(''title'', JStr ''Tea'')])"
  let ?d1 = "table_of (drink_1 ''Water'' water)"
  let ?d2 = "table_of (drink_1 ''Tea'' water)"
  let ?b1 = "JObj [(''success'', JBool True),
        (''drinks'', JObj [(''id'', JInt 1), (''title'', JStr ''Water''),
                           (''recipe'', water)])]"
  let ?b2 = "JObj [(''success'', JBool True),
          (''drinks'', JArr [JObj [(''id'', JInt 1), (''title'', JStr ''Tea''),
                                   (''recipe'', water)]])]"
  have h1: "serve as_manager False POST_drinks ?req1 no_drinks = (Response ?b1 200, ?d1)"
    by code_simp
  have h2: "serve as_manager False (PATCH_drinks 1) ?req2 ?d1 = (Response ?b2 200, ?d2)"
    by code_simp
  have h3: "serve as_manager False (DELETE_drinks 1) (sends JNull) ?d2
     = (Response (JObj [(''success'', JBool True), (''delete'', JInt 1)]) 200,
        \<lparr>rows = [], next_id = 2\<rparr>)"
    by code_simp
  from success_shapes [of as_manager False ?req1 no_drinks ?b1 ?d1] h1
  have c1: "\<exists>drink l fields. rows ?d1 = rows no_drinks @ [drink] \<and> long drink = Inr l
      \<and> l = JObj fields \<and> ?b1 = JObj [(''success'', JBool True), (''drinks'', l)]"
    by blast
  from success_shapes [of as_manager False ?req2 ?d1 ?b2 ?d2 1] h2
  have c2: "\<exists>drink l. one_or_none (filter_by_id ?d2 1) = Inr (Some drink)
      \<and> long drink = Inr l \<and> ?b2 = JObj [(''success'', JBool True), (''drinks'', JArr [l])]"
    by blast
  have a: "token_verifier as_manager (authorization ?req1) = Inr manager"
    by (simp add: token_verifier_def sends_def as_manager_def)
  have p: "''post:drinks'' \<in> permission_set manager"
    by (simp add: permission_set_def manager_def)
  have j: "get_json ?req1 = Returns (JObj [(''title'', JStr ''Water''), (''recipe'', water)])"
    by (simp add: sends_def)
  have wf: "json_wf water" by (simp add: water_def)
  from success_shapes [of as_manager False ?req1 no_drinks ?b1 ?d1 1 manager
      "[(''title'', JStr ''Water''), (''recipe'', water)]" "JStr ''Water''" water] a p j wf
  have c4: "serve as_manager False POST_drinks ?req1 no_drinks
     = (Response (JObj [(''success'', JBool True),
          (''drinks'', JObj [(''id'', JInt (next_id no_drinks)), (''title'', JStr ''Water''),
                             (''recipe'', water)])]) 200,
        no_drinks\<lparr>rows := rows no_drinks @
                      [\<lparr>drink_id = Some (next_id no_drinks), title = JStr ''Water'',
                        recipe = json_dumps water\<rparr>],
                    next_id := next_id no_drinks + 1\<rparr>)"
    by simp
  from h1 h2 h3 c1 c2 a p wf c4 show ?thesis by (intro conjI)
qed

section \<open>The stored recipe\<close>

text \<open>
  Claim C9. After a create or an update that succeeded, the recipe stored for the drink
  is valid structured data. The created drink is the row appended to the table; its
  recipe is \<open>json.dumps\<close> of the recipe the caller supplied, and \<open>json.loads\<close> reads that
  very value back. An updated drink's stored recipe is read by \<open>json.loads\<close>, and when the
  body supplied a recipe it is \<open>json.dumps\<close> of it. If every stored recipe was valid
  before the operation, every stored recipe is valid after it.
\<close>

theorem stored_recipe_is_json:
  "(add_drink fault req payload d = (Inr body, d') \<longrightarrow>
      (\<exists>drink b r. rows d' = rows d @ [drink]
         \<and> get_json req = Returns b \<and> py_getitem b ''recipe'' = Inr r
         \<and> recipe drink = json_dumps r
         \<and> valid_recipe drink
         \<and> (json_wf r \<longrightarrow> json_loads (recipe drink) = Some r)))
   \<and> (edit_drink_by_id fault req payload i d = (Inr body, d') \<longrightarrow>
      (\<exists>drink. one_or_none (filter_by_id d' i) = Inr (Some drink)
         \<and> valid_recipe drink
         \<and> (\<forall>b r. get_json req = Returns b \<and> py_getitem b ''recipe'' = Inr r \<longrightarrow>
               recipe drink = json_dumps r
               \<and> (json_wf r \<longrightarrow> json_loads (recipe drink) = Some r))))
   \<and> (list_all valid_recipe (rows d) \<longrightarrow>
        (add_drink fault req payload d = (Inr body, d') \<longrightarrow> list_all valid_recipe (rows d'))
      \<and> (edit_drink_by_id fault req payload i d = (Inr body, d') \<longrightarrow>
            list_all valid_recipe (rows d')))"
proof (intro conjI impI)
  assume "add_drink fault req payload d = (Inr body, d')"
  from add_drink_success [OF this] obtain b t r l where
    r: "get_json req = Returns b" "py_getitem b ''recipe'' = Inr r"
    and d': "d' = d\<lparr>rows := rows d @ [\<lparr>drink_id = Some (next_id d), title = t,
                                      recipe = json_dumps r\<rparr>],
                  next_id := next_id d + 1\<rparr>"
    and l: "long \<lparr>drink_id = Some (next_id d), title = t, recipe = json_dumps r\<rparr> = Inr l"
    by blast
  let ?drink = "\<lparr>drink_id = Some (next_id d), title = t, recipe = json_dumps r\<rparr>"
  have "rows d' = rows d @ [?drink]" by (simp add: d')
  moreover have "recipe ?drink = json_dumps r" by simp
  moreover have "valid_recipe ?drink" using l by (rule long_valid)
  moreover have "json_wf r \<longrightarrow> json_loads (recipe ?drink) = Some r"
    by (simp add: json_loads_dumps)
  ultimately show "\<exists>drink b r. rows d' = rows d @ [drink]
         \<and> get_json req = Returns b \<and> py_getitem b ''recipe'' = Inr r
         \<and> recipe drink = json_dumps r
         \<and> valid_recipe drink
         \<and> (json_wf r \<longrightarrow> json_loads (recipe drink) = Some r)"
    using r by blast
next
  assume "edit_drink_by_id fault req payload i d = (Inr body, d')"
  from edit_drink_success [OF this] obtain b0 drink drink1 drink2 l where
    g: "get_json req = Returns b0"
    and b: "assign_recipe b0 drink1 = Inr drink2"
    and f: "filter_by_id d' i = [drink2]"
    and l: "long drink2 = Inr l"
    by blast
  have given: "\<forall>b r. get_json req = Returns b \<and> py_getitem b ''recipe'' = Inr r \<longrightarrow>
               recipe drink2 = json_dumps r
               \<and> (json_wf r \<longrightarrow> json_loads (recipe drink2) = Some r)"
    using b g by (auto simp: assign_recipe_given json_loads_dumps)
  from f l given
  show "\<exists>drink. one_or_none (filter_by_id d' i) = Inr (Some drink)
         \<and> valid_recipe drink
         \<and> (\<forall>b r. get_json req = Returns b \<and> py_getitem b ''recipe'' = Inr r \<longrightarrow>
               recipe drink = json_dumps r
               \<and> (json_wf r \<longrightarrow> json_loads (recipe drink) = Some r))"
    by (auto simp: one_or_none_Some dest: long_valid)
next
  assume inv: "list_all valid_recipe (rows d)"
    and "add_drink fault req payload d = (Inr body, d')"
  from add_drink_success [OF this(2)] obtain t r l where
    d': "d' = d\<lparr>rows := rows d @ [\<lparr>drink_id = Some (next_id d), title = t,
                                      recipe = json_dumps r\<rparr>],
                  next_id := next_id d + 1\<rparr>"
    and l: "long \<lparr>drink_id = Some (next_id d), title = t, recipe = json_dumps r\<rparr> = Inr l"
    by blast
  from inv long_valid [OF l] show "list_all valid_recipe (rows d')" by (simp add: d')
next
  assume inv: "list_all valid_recipe (rows d)"
    and "edit_drink_by_id fault req payload i d = (Inr body, d')"
  from edit_drink_success [OF this(2)] obtain drink2 l where
    d': "d' = d\<lparr>rows := map (\<lambda>r. if drink_id r = Some i then drink2 else r) (rows d)\<rparr>"
    and l: "long drink2 = Inr l"
    by blast
  from inv long_valid [OF l] show "list_all valid_recipe (rows d')"
    by (auto simp: d' list_all_iff)
qed

theorem stored_recipe_is_json_witness:
  "add_drink False (sends (JObj [(''title'', JStr ''Water''), (''recipe'', water)])) manager
     no_drinks
   = (Inr (JObj [(''success'', JBool True),
        (''drinks'', JObj [(''id'', JInt 1), (''title'', JStr ''Water''),
                           (''recipe'', water)])]),
      table_of (drink_1 ''Water'' water))
   \<and> (\<exists>drink. rows (table_of (drink_1 ''Water'' water)) = rows no_drinks @ [drink]
         \<and> recipe drink = json_dumps water
         \<and> valid_recipe drink
         \<and> json_loads (recipe drink) = Some water)
   \<and> edit_drink_by_id False (sends (JObj [(''recipe'', matcha)])) manager 1
       (table_of (drink_1 ''Water'' water))
     = (Inr (JObj [(''success'', JBool True),
          (''drinks'', JArr [JObj [(''id'', JInt 1), (''title'', JStr ''Water''),
                                   (''recipe'', matcha)]])]),
        table_of (drink_1 ''Water'' matcha))
   \<and> (\<exists>drink. one_or_none (filter_by_id (table_of (drink_1 ''Water'' matcha)) 1)
                  = Inr (Some drink)
         \<and> valid_recipe drink
         \<and> recipe drink = json_dumps matcha
         \<and> json_loads (recipe drink) = Some matcha)
   \<and> list_all valid_recipe (rows (table_of (drink_1 ''Water'' water)))
   \<and> list_all valid_recipe (rows (table_of (drink_1 ''Water'' matcha)))"
proof -
  let ?req1 = "sends (JObj [(''title'', JStr ''Water''), (''recipe'', water)])"
  let ?req2 = "sends (JObj [(''recipe'', matcha)])"
  let ?d1 = "table_of (drink_1 ''Water'' water)"
  let ?d2 = "table_of (drink_1 ''Water'' matcha)"
  let ?b1 = "JObj [(''success'', JBool True),
        (''drinks'', JObj [(''id'', JInt 1), (''title'', JStr ''Water''),
                           (''recipe'', water)])]"
  let ?b2 = "JObj [(''success'', JBool True),
          (''drinks'', JArr [JObj [(''id'', JInt 1), (''title'', JStr ''Water''),
                                   (''recipe'', matcha)]])]"
  have h1: "add_drink False ?req1 manager no_drinks = (Inr ?b1, ?d1)"
    by code_simp
  have h2: "edit_drink_by_id False ?req2 manager 1 ?d1 = (Inr ?b2, ?d2)"
    by code_simp
  have wf1: "json_wf water" and wf2: "json_wf matcha"
    by (simp_all add: water_def matcha_def)
  have j1: "get_json ?req1 = Returns (JObj [(''title'', JStr ''Water''), (''recipe'', water)])"
    and j2: "get_json ?req2 = Returns (JObj [(''recipe'', matcha)])"
    by (simp_all add: sends_def)
  have g2: "py_getitem (JObj [(''recipe'', matcha)]) ''recipe'' = Inr matcha" by simp
  have inv: "list_all valid_recipe (rows ?d1)"
    using json_loads_dumps [OF wf1] by (simp add: valid_recipe_def table_of_def drink_1_def)
  note t1 = stored_recipe_is_json [of False ?req1 manager no_drinks ?b1 ?d1]
  note t2 = stored_recipe_is_json [of False ?req2 manager ?d1 ?b2 ?d2 1]
  from t1 h1 obtain drink b r where
    c1: "rows ?d1 = rows no_drinks @ [drink]" "py_getitem b ''recipe'' = Inr r"
      "recipe drink = json_dumps r" "valid_recipe drink"
      "json_wf r \<longrightarrow> json_loads (recipe drink) = Some r"
    and gb: "get_json ?req1 = Returns b"
    by blast
  from gb j1 have "b = JObj [(''title'', JStr ''Water''), (''recipe'', water)]" by simp
  with c1(2) have r: "r = water" by simp
  from t2 h2 obtain drink' where
    c2: "one_or_none (filter_by_id ?d2 1) = Inr (Some drink')" "valid_recipe drink'"
      "\<forall>b r. get_json ?req2 = Returns b \<and> py_getitem b ''recipe'' = Inr r \<longrightarrow>
            recipe drink' = json_dumps r
            \<and> (json_wf r \<longrightarrow> json_loads (recipe drink') = Some r)"
    by blast
  from c2(3) j2 g2 wf2 have c2': "recipe drink' = json_dumps matcha"
    "json_loads (recipe drink') = Some matcha" by blast+
  from t2 h2 inv have inv2: "list_all valid_recipe (rows ?d2)" by blast
  from c1 r wf1 have e1: "\<exists>drink. rows ?d1 = rows no_drinks @ [drink]
         \<and> recipe drink = json_dumps water \<and> valid_recipe drink
         \<and> json_loads (recipe drink) = Some water"
    by auto
  from c2(1,2) c2' have e2: "\<exists>drink. one_or_none (filter_by_id ?d2 1) = Inr (Some drink)
         \<and> valid_recipe drink \<and> recipe drink = json_dumps matcha
         \<and> json_loads (recipe drink) = Some matcha"
    by blast
  from h1 e1 h2 e2 inv inv2 show ?thesis by (intro conjI)
qed

section \<open>Updating the recipe, and updating nothing\<close>

text \<open>
  Claim C10. For an authorized update of an existing drink whose body is a JSON object,
  with no storage failure: when the body has a \<open>recipe\<close>, the stored recipe becomes
  \<open>json.dumps\<close> of the supplied value and nothing of the old recipe, and the answer is 200
  with that recipe; when the body has neither \<open>title\<close> nor \<open>recipe\<close>, the table is
  unchanged and the answer is 200 with the \<open>long\<close> object of the drink as it was (the
  stored recipe being one that \<open>long\<close> can read).
\<close>

theorem update_replaces_recipe:
  assumes "token_verifier check (authorization req) = Inr payload"
    and "''patch:drinks'' \<in> permission_set payload"
    and "one_or_none (filter_by_id d i) = Inr (Some drink)"
    and "get_json req = Returns (JObj kvs)"
    and "serve check False (PATCH_drinks i) req d = (resp, d')"
  shows "(\<forall>r. map_of kvs ''recipe'' = Some r \<longrightarrow>
           (\<exists>drink'. one_or_none (filter_by_id d' i) = Inr (Some drink')
              \<and> recipe drink' = json_dumps r
              \<and> (json_wf r \<longrightarrow>
                   resp = Response (JObj [(''success'', JBool True),
                     (''drinks'', JArr [JObj [(''id'', JInt i), (''title'', title drink'),
                                              (''recipe'', r)]])]) 200)))
       \<and> (map_of kvs ''title'' = None \<and> map_of kvs ''recipe'' = None \<longrightarrow>
           d' = d
           \<and> (\<forall>l. long drink = Inr l \<longrightarrow>
                 resp = Response (JObj [(''success'', JBool True), (''drinks'', JArr [l])]) 200))"
proof -
  from assms(3) have one: "filter_by_id d i = [drink]" by (simp add: one_or_none_Some)
  then have "drink \<in> set (filter_by_id d i)" by simp
  then have id: "drink_id drink = Some i" by (simp add: filter_by_id_def)
  define drink2 where "drink2 =
     (case map_of kvs ''recipe'' of None \<Rightarrow> (\<lambda>x. x)
      | Some r \<Rightarrow> recipe_update (\<lambda>_. json_dumps r))
       ((case map_of kvs ''title'' of None \<Rightarrow> (\<lambda>x. x)
         | Some t \<Rightarrow> title_update (\<lambda>_. t)) drink)"
  have id2: "drink_id drink2 = Some i"
    by (simp add: drink2_def id split: option.splits)
  from assms(1,2,5) have
    eff: "d' = d\<lparr>rows := map (\<lambda>r. if drink_id r = Some i then drink2 else r) (rows
        d)\<rparr>"
    and resp: "resp = (case long drink2 of Inl e \<Rightarrow> errorhandler (Uncaught e)
                       | Inr l \<Rightarrow> Response (success_drinks (JArr [l])) 200)"
    by (auto simp: serve_def dispatch_def requires_auth_def edit_drink_obj [OF one assms(4)]
          drink2_def Let_def split: sum.splits)
  have stored: "filter_by_id d' i = [drink2]"
    using one id2 by (simp add: eff filter_by_id_def filter_replace_same)
  show ?thesis
  proof (intro conjI allI impI)
    fix r
    assume r: "map_of kvs ''recipe'' = Some r"
    then have rec: "recipe drink2 = json_dumps r" by (simp add: drink2_def)
    have "json_wf r \<longrightarrow>
            resp = Response (JObj [(''success'', JBool True),
                     (''drinks'', JArr [JObj [(''id'', JInt i), (''title'', title drink2),
                                              (''recipe'', r)]])]) 200"
      by (simp add: resp long_def rec json_loads_dumps id2 id_json_def success_drinks_def)
    with stored rec
    show "\<exists>drink'. one_or_none (filter_by_id d' i) = Inr (Some drink')
              \<and> recipe drink' = json_dumps r
              \<and> (json_wf r \<longrightarrow>
                   resp = Response (JObj [(''success'', JBool True),
                     (''drinks'', JArr [JObj [(''id'', JInt i), (''title'', title drink'),
                                              (''recipe'', r)]])]) 200)"
      by (auto simp: one_or_none_Some)
  next
    assume "map_of kvs ''title'' = None \<and> map_of kvs ''recipe'' = None"
    then have same: "drink2 = drink" by (simp add: drink2_def)
    from one have "filter (\<lambda>r. drink_id r = Some i) (rows d) = [drink]"
      by (simp add: filter_by_id_def)
    from map_replace_self [OF this] show "d' = d" unfolding eff same by simp
  next
    fix l
    assume "map_of kvs ''title'' = None \<and> map_of kvs ''recipe'' = None"
      and l: "long drink = Inr l"
    then have same: "drink2 = drink" by (simp add: drink2_def)
    show "resp = Response (JObj [(''success'', JBool True), (''drinks'', JArr [l])]) 200"
      by (simp add: resp same l success_drinks_def)
  qed
qed

theorem update_replaces_recipe_witness:
  "token_verifier as_manager (authorization (sends (JObj [(''recipe'', matcha)]))) = Inr manager
   \<and> ''patch:drinks'' \<in> permission_set manager
   \<and> one_or_none (filter_by_id (table_of (drink_1 ''Water'' water)) 1)
     = Inr (Some (drink_1 ''Water'' water))
   \<and> serve as_manager False (PATCH_drinks 1) (sends (JObj [(''recipe'', matcha)]))
       (table_of (drink_1 ''Water'' water))
     = (Response (JObj [(''success'', JBool True),
          (''drinks'', JArr [JObj [(''id'', JInt 1), (''title'', JStr ''Water''),
                                   (''recipe'', matcha)]])]) 200,
        table_of (drink_1 ''Water'' matcha))
   \<and> (\<exists>drink'. one_or_none (filter_by_id (table_of (drink_1 ''Water'' matcha)) 1)
                   = Inr (Some drink')
         \<and> recipe drink' = json_dumps matcha)
   \<and> serve as_manager False (PATCH_drinks 1) (sends (JObj []))
       (table_of (drink_1 ''Water'' water))
     = (Response (JObj [(''success'', JBool True),
          (''drinks'', JArr [JObj [(''id'', JInt 1), (''title'', JStr ''Water''),
                                   (''recipe'', water)]])]) 200,
        table_of (drink_1 ''Water'' water))"
proof -
  let ?req2 = "sends (JObj [(''recipe'', matcha)])"
  let ?req3 = "sends (JObj [])"
  let ?d1 = "table_of (drink_1 ''Water'' water)"
  let ?d2 = "table_of (drink_1 ''Water'' matcha)"
  let ?b2 = "JObj [(''success'', JBool True),
          (''drinks'', JArr [JObj [(''id'', JInt 1), (''title'', JStr ''Water''),
                                   (''recipe'', matcha)]])]"
  let ?l = "JObj [(''id'', JInt 1), (''title'', JStr ''Water''), (''recipe'', water)]"
  have a2: "token_verifier as_manager (authorization ?req2) = Inr manager"
    and a3: "token_verifier as_manager (authorization ?req3) = Inr manager"
    by (simp_all add: token_verifier_def sends_def as_manager_def)
  have p: "''patch:drinks'' \<in> permission_set manager"
    by (simp add: permission_set_def manager_def)
  have o: "one_or_none (filter_by_id ?d1 1) = Inr (Some (drink_1 ''Water'' water))"
    by (simp add: filter_by_id_def table_of_def drink_1_def)
  have j2: "get_json ?req2 = Returns (JObj [(''recipe'', matcha)])"
    and j3: "get_json ?req3 = Returns (JObj [])" by (simp_all add: sends_def)
  have h2: "serve as_manager False (PATCH_drinks 1) ?req2 ?d1 = (Response ?b2 200, ?d2)"
    by code_simp
  obtain resp d' where h3: "serve as_manager False (PATCH_drinks 1) ?req3 ?d1 = (resp, d')"
    by (cases "serve as_manager False (PATCH_drinks 1) ?req3 ?d1")
  have l: "long (drink_1 ''Water'' water) = Inr ?l"
    by code_simp
  from update_replaces_recipe [OF a2 p o j2 h2] have
    c2: "\<exists>drink'. one_or_none (filter_by_id ?d2 1) = Inr (Some drink')
         \<and> recipe drink' = json_dumps matcha"
    by auto
  from update_replaces_recipe [OF a3 p o j3 h3] l have
    "d' = ?d1"
    and "resp = Response (JObj [(''success'', JBool True), (''drinks'', JArr [?l])]) 200"
    by auto
  with h3 have c3: "serve as_manager False (PATCH_drinks 1) ?req3 ?d1
      = (Response (JObj [(''success'', JBool True), (''drinks'', JArr [?l])]) 200, ?d1)"
    by simp
  from a2 p o h2 c2 c3 show ?thesis by (intro conjI)
qed

section \<open>The two projections\<close>

text \<open>
  Claim C7 says that for every stored drink \<open>short\<close> is \<open>long\<close> with the \<open>parts\<close> field of
  every recipe entry removed. \<open>add_drink\<close> stores any recipe the caller sends, and for an
  entry that has a field besides \<open>color\<close> and \<open>parts\<close> the two differ: \<open>short\<close> keeps only
  the color, \<open>long\<close> without \<open>parts\<close> still has the other field.
\<close>

theorem short_extra_field_counterexample:
  "add_drink False (sends (JObj [(''title'', JStr ''Water''), (''recipe'', named_water)]))
     manager no_drinks
   = (Inr (JObj [(''success'', JBool True),
        (''drinks'', JObj [(''id'', JInt 1), (''title'', JStr ''Water''),
                           (''recipe'', named_water)])]),
      table_of (drink_1 ''Water'' named_water))
   \<and> drink_1 ''Water'' named_water \<in> set (rows (table_of (drink_1 ''Water'' named_water)))
   \<and> long (drink_1 ''Water'' named_water)
     = Inr (JObj [(''id'', JInt 1), (''title'', JStr ''Water''),
           (''recipe'', JArr [JObj [(''name'', JStr ''water''), (''color'', JStr ''blue''),
                                    (''parts'', JInt 1)]])])
   \<and> hide_parts (JObj [(''id'', JInt 1), (''title'', JStr ''Water''),
           (''recipe'', JArr [JObj [(''name'', JStr ''water''), (''color'', JStr ''blue''),
                                    (''parts'', JInt 1)]])])
     = JObj [(''id'', JInt 1), (''title'', JStr ''Water''),
           (''recipe'', JArr [JObj [(''name'', JStr ''water''), (''color'', JStr ''blue'')]])]
   \<and> short (drink_1 ''Water'' named_water)
     = Inr (JObj [(''id'', JInt 1), (''title'', JStr ''Water''),
           (''recipe'', JArr [JObj [(''color'', JStr ''blue'')]])])
   \<and> short (drink_1 ''Water'' named_water)
     \<noteq> map_sum id hide_parts (long (drink_1 ''Water'' named_water))"
  by code_simp

text \<open>
  Claim C7, amended. For every stored drink whose recipe is a list of entries that each
  have a \<open>color\<close> and no field other than \<open>color\<close> and \<open>parts\<close>, \<open>short\<close> is \<open>long\<close> with
  the \<open>parts\<close> field of every entry removed: same id, same title, the same color in every
  entry. When all stored drinks are such and there is at least one, the body of
  \<open>GET /drinks\<close> is this projection of the body of \<open>GET /drinks-detail\<close>.
\<close>

theorem short_hides_parts:
  assumes "list_all data_model_recipe (rows d)"
  shows "(\<forall>drink \<in> set (rows d). \<exists>entries.
            long drink = Inr (JObj [(''id'', id_json (drink_id drink)), (''title'', title drink),
                                    (''recipe'', JArr entries)])
          \<and> short drink = Inr (JObj [(''id'', id_json (drink_id drink)), (''title'', title drink),
                                     (''recipe'', JArr (map hide_parts_entry entries))])
          \<and> short drink = map_sum id hide_parts (long drink)
          \<and> map (\<lambda>e. py_getitem e ''color'') (map hide_parts_entry entries)
              = map (\<lambda>e. py_getitem e ''color'') entries)
       \<and> (rows d \<noteq> [] \<longrightarrow>
            (\<exists>ls. drinks_detail payload d = Inr (JObj [(''success'', JBool True), (''drinks'', JArr ls)])
                \<and> drinks d = Inr (JObj [(''success'', JBool True),
                                        (''drinks'', JArr (map hide_parts ls))])))"
proof (intro conjI ballI impI)
  fix drink
  assume "drink \<in> set (rows d)"
  with assms have "data_model_recipe drink" by (simp add: list_all_iff)
  then obtain es where es: "json_loads (recipe drink) = Some (JArr es)"
    and ing: "list_all ingredient es"
    by (auto simp: data_model_recipe_def split: option.splits json.splits)
  have col: "map (\<lambda>e. py_getitem e ''color'') (map hide_parts_entry es)
              = map (\<lambda>e. py_getitem e ''color'') es"
  proof -
    have "\<And>e. ingredient e \<Longrightarrow> py_getitem (hide_parts_entry e) ''color'' = py_getitem e ''color''"
    proof -
      fix e assume i: "ingredient e"
      then obtain kvs where e: "e = JObj kvs" by (cases e) auto
      with i have dd: "distinct (map fst kvs)" and c: "''color'' \<in> fst ` set kvs"
        and s: "set (map fst kvs) \<subseteq> {''color'', ''parts''}" by auto
      from c obtain v where v: "map_of kvs ''color'' = Some v"
        by (cases "map_of kvs ''color''") (auto simp: map_of_eq_None_iff)
      from only_color [OF dd v s] v e
      show "py_getitem (hide_parts_entry e) ''color'' = py_getitem e ''color''" by simp
    qed
    with ing show ?thesis by (simp add: list_all_iff)
  qed
  from short_data_model(1,2) [OF es ing] col
  show "\<exists>entries.
            long drink = Inr (JObj [(''id'', id_json (drink_id drink)), (''title'', title drink),
                                    (''recipe'', JArr entries)])
          \<and> short drink = Inr (JObj [(''id'', id_json (drink_id drink)), (''title'', title drink),
                                     (''recipe'', JArr (map hide_parts_entry entries))])
          \<and> short drink = map_sum id hide_parts (long drink)
          \<and> map (\<lambda>e. py_getitem e ''color'') (map hide_parts_entry entries)
              = map (\<lambda>e. py_getitem e ''color'') entries"
    by auto
next
  assume ne: "rows d \<noteq> []"
  have "\<exists>ls. try_map long (rows d) = Inr ls \<and> try_map short (rows d) = Inr (map hide_parts ls)"
  proof (rule try_map_projection)
    fix x assume "x \<in> set (rows d)"
    with assms have "data_model_recipe x" by (simp add: list_all_iff)
    then obtain es where es: "json_loads (recipe x) = Some (JArr es)"
      and ing: "list_all ingredient es"
      by (auto simp: data_model_recipe_def split: option.splits json.splits)
    from short_data_model(3) [OF es ing]
    show "\<exists>l. long x = Inr l \<and> short x = Inr (hide_parts l)" .
  qed
  then obtain ls where "try_map long (rows d) = Inr ls"
    "try_map short (rows d) = Inr (map hide_parts ls)" by blast
  with ne
  show "\<exists>ls. drinks_detail payload d = Inr (JObj [(''success'', JBool True), (''drinks'', JArr ls)])
                \<and> drinks d = Inr (JObj [(''success'', JBool True),
                                        (''drinks'', JArr (map hide_parts ls))])"
    by (simp add: drinks_def drinks_detail_def query_all_def success_drinks_def)
qed

theorem short_hides_parts_witness:
  "list_all data_model_recipe (rows (table_of (drink_1 ''Water'' water)))
   \<and> long (drink_1 ''Water'' water)
       = Inr (JObj [(''id'', JInt 1), (''title'', JStr ''Water''), (''recipe'', water)])
   \<and> short (drink_1 ''Water'' water)
       = Inr (JObj [(''id'', JInt 1), (''title'', JStr ''Water''),
                    (''recipe'', JArr [JObj [(''color'', JStr ''blue'')]])])
   \<and> short (drink_1 ''Water'' water) = map_sum id hide_parts (long (drink_1 ''Water'' water))
   \<and> (\<exists>ls. drinks_detail manager (table_of (drink_1 ''Water'' water))
              = Inr (JObj [(''success'', JBool True), (''drinks'', JArr ls)])
          \<and> drinks (table_of (drink_1 ''Water'' water))
              = Inr (JObj [(''success'', JBool True), (''drinks'', JArr (map hide_parts ls))]))"
proof -
  let ?d1 = "table_of (drink_1 ''Water'' water)"
  have h: "list_all data_model_recipe (rows ?d1)"
    by code_simp
  have m: "drink_1 ''Water'' water \<in> set (rows ?d1)" by (simp add: table_of_def)
  have ne: "rows ?d1 \<noteq> []" by (simp add: table_of_def)
  have l: "long (drink_1 ''Water'' water)
       = Inr (JObj [(''id'', JInt 1), (''title'', JStr ''Water''), (''recipe'', water)])"
    by code_simp
  have s: "short (drink_1 ''Water'' water)
       = Inr (JObj [(''id'', JInt 1), (''title'', JStr ''Water''),
                    (''recipe'', JArr [JObj [(''color'', JStr ''blue'')]])])"
    by code_simp
  note t = short_hides_parts [OF h, of manager]
  from t m have c1: "short (drink_1 ''Water'' water)
      = map_sum id hide_parts (long (drink_1 ''Water'' water))"
    by blast
  from t ne have c2: "\<exists>ls. drinks_detail manager ?d1
              = Inr (JObj [(''success'', JBool True), (''drinks'', JArr ls)])
          \<and> drinks ?d1
              = Inr (JObj [(''success'', JBool True), (''drinks'', JArr (map hide_parts ls))])"
    by blast
  from h l s c1 c2 show ?thesis by (intro conjI)
qed

end
